theory Spec2Isabelle
  imports Main "HOL-Library.Word"
begin

section \<open>JavaScript values\<close>

text \<open>
  The streaming layer receives its inputs as untyped JavaScript values: the result of
  \<^verbatim>\<open>JSON.parse\<close>, a thrown value of type \<^verbatim>\<open>unknown\<close>, the content of
  \<^verbatim>\<open>localStorage\<close>. The checks of the source (\<^verbatim>\<open>typeof x === "string"\<close>,
  \<^verbatim>\<open>"retryable" in error\<close>, truthiness) are written out over the datatype below.
  Numbers are the integers: sequence numbers, sample rates and timestamps are integral,
  and the rounding of IEEE doubles, \<^verbatim>\<open>NaN\<close> and the infinities are outside the model.
  An object is the list of its properties (own and inherited), read with \<open>map_of\<close>.
  Strings are byte strings: a character beyond ASCII is its UTF-8 encoding.
\<close>

datatype jsval =
    Undefined
  | Null
  | Boolean bool
  | Number int
  | String string
  | Array "jsval list"
  | Object "(string \<times> jsval) list"

text \<open>\<^verbatim>\<open>Boolean(v)\<close>, the truthiness that \<^verbatim>\<open>if (v)\<close>, \<^verbatim>\<open>!v\<close> and \<^verbatim>\<open>a || b\<close> test.\<close>

fun truthy :: "jsval \<Rightarrow> bool" where
  "truthy Undefined = False"
| "truthy Null = False"
| "truthy (Boolean b) = b"
| "truthy (Number n) = (n \<noteq> 0)"
| "truthy (String s) = (s \<noteq> [])"
| "truthy (Array xs) = True"
| "truthy (Object fs) = True"

text \<open>
  \<^verbatim>\<open>payload.key\<close> on a value that is neither \<^verbatim>\<open>null\<close> nor \<^verbatim>\<open>undefined\<close>: a missing
  property reads as \<^verbatim>\<open>undefined\<close>. The keys read by the source (\<^verbatim>\<open>type\<close>, \<^verbatim>\<open>seq\<close>,
  \<^verbatim>\<open>audio\<close>, ...) are no properties of numbers, booleans, strings or arrays.
\<close>

fun js_get :: "jsval \<Rightarrow> string \<Rightarrow> jsval" where
  "js_get (Object fs) k = (case map_of fs k of Some v \<Rightarrow> v | None \<Rightarrow> Undefined)"
| "js_get v k = Undefined"

text \<open>\<^verbatim>\<open>typeof v === "string"\<close>.\<close>

fun is_string :: "jsval \<Rightarrow> bool" where
  "is_string (String s) = True"
| "is_string v = False"

text \<open>\<^verbatim>\<open>a || b\<close>: the left operand when it is truthy, the right one otherwise.\<close>

definition js_or :: "jsval \<Rightarrow> jsval \<Rightarrow> jsval" where
  "js_or a b = (if truthy a then a else b)"

section \<open>Payload parsing\<close>

text \<open>
  \<^verbatim>\<open>JSON.parse\<close> belongs to the platform, so it is a parameter \<open>json_parse\<close>: \<open>None\<close> is
  the \<^verbatim>\<open>SyntaxError\<close> it throws on a string that is not valid JSON. The \<^verbatim>\<open>try\<close>/\<^verbatim>\<open>catch\<close> of
  both functions turns that exception into \<^verbatim>\<open>null\<close>.
\<close>

fun parseTtsWsEventPayload :: "(string \<Rightarrow> jsval option) \<Rightarrow> jsval \<Rightarrow> jsval" where
  "parseTtsWsEventPayload json_parse (String s) =
     (case json_parse s of None \<Rightarrow> Null | Some payload \<Rightarrow> payload)"
| "parseTtsWsEventPayload json_parse v = Null"

fun parseSttWsEventPayload :: "(string \<Rightarrow> jsval option) \<Rightarrow> jsval \<Rightarrow> jsval" where
  "parseSttWsEventPayload json_parse (String s) =
     (case json_parse s of None \<Rightarrow> Null | Some payload \<Rightarrow> payload)"
| "parseSttWsEventPayload json_parse v = Null"

section \<open>Sequence and fallback predicates\<close>

definition shouldAcceptAudioSeq :: "int \<Rightarrow> int \<Rightarrow> bool" where
  "shouldAcceptAudioSeq incomingSeq highestSeqSeen = (incomingSeq > highestSeqSeen)"

text \<open>
  \<^verbatim>\<open>typeof error === "object" && error !== null && "retryable" in error\<close> holds of objects
  with the property (an array has no such property); then the property is coerced with
  \<^verbatim>\<open>Boolean\<close>.
\<close>

fun shouldFallbackToSse :: "jsval \<Rightarrow> bool" where
  "shouldFallbackToSse (Object fs) =
     (case map_of fs ''retryable'' of Some r \<Rightarrow> truthy r | None \<Rightarrow> True)"
| "shouldFallbackToSse v = True"

definition TTS_WS_RETRY_DELAYS_MS :: "int list" where
  "TTS_WS_RETRY_DELAYS_MS = [250, 750, 1500]"

text \<open>\<^verbatim>\<open>buildError(message, retryable)\<close>: an \<^verbatim>\<open>Error\<close> carrying a \<^verbatim>\<open>retryable\<close> flag.\<close>

definition buildError :: "jsval \<Rightarrow> bool \<Rightarrow> jsval" where
  "buildError message retryable =
     Object [(''message'', message), (''retryable'', Boolean retryable)]"

section \<open>Binary helpers\<close>

type_synonym bytes = "8 word list"

text \<open>The regular-expression class \<^verbatim>\<open>\w\<close>: ASCII letters, digits and the underscore.\<close>

definition is_word_char :: "char \<Rightarrow> bool" where
  "is_word_char c =
     (let n = (of_char c :: nat)
      in (48 \<le> n \<and> n \<le> 57) \<or> (65 \<le> n \<and> n \<le> 90) \<or> n = 95 \<or> (97 \<le> n \<and> n \<le> 122))"

text \<open>
  \<^verbatim>\<open>base64.replace(/^data:audio\/\w+;base64,/, "")\<close>. The character after the greedy
  \<^verbatim>\<open>\w+\<close> is \<^verbatim>\<open>;\<close>, which is no word character, so the longest run of word
  characters is the only candidate match.
\<close>

definition strip_data_uri :: "string \<Rightarrow> string" where
  "strip_data_uri base64 =
     (if take 11 base64 = ''data:audio/'' then
        (let r = drop 11 base64;
             w = takeWhile is_word_char r;
             r' = dropWhile is_word_char r
         in if w \<noteq> [] \<and> take 8 r' = '';base64,'' then drop 8 r' else base64)
      else base64)"

text \<open>
  \<^verbatim>\<open>atob\<close> belongs to the platform and is a parameter: \<open>None\<close> is the exception it throws
  on a string that is not base64. Each character of its binary string is one byte.
\<close>

definition base64ToUint8Array :: "(string \<Rightarrow> string option) \<Rightarrow> string \<Rightarrow> bytes option" where
  "base64ToUint8Array atob base64 =
     (case atob (strip_data_uri base64) of
        None \<Rightarrow> None
      | Some binaryString \<Rightarrow> Some (map (\<lambda>c. of_nat (of_char c)) binaryString))"

section \<open>TTS WebSocket session\<close>

datatype ready_state = CONNECTING | OPEN | CLOSING | CLOSED

text \<open>
  The events a browser dispatches on one socket. A message carries \<^verbatim>\<open>String(event.data)\<close>;
  a close carries what \<^verbatim>\<open>isStopped()\<close> answers when the handler runs (the caller's flag,
  which the caller may set at any moment).
\<close>

datatype ws_event = WsOpen | WsMessage string | WsError | WsClose bool

record tts_request =
  requestId :: string
  req_text :: string
  req_voice :: string
  req_accessibilityMode :: bool

text \<open>
  The variables of \<^verbatim>\<open>collectTtsViaWebSocket\<close> (\<open>chunks\<close>, \<open>mimeType\<close>, \<open>sampleRate\<close>,
  \<open>highestSeqSeen\<close>: shared by all connection attempts) and those of one \<^verbatim>\<open>connectOnce\<close>:
  \<open>done_flag\<close> is its \<^verbatim>\<open>done\<close>, \<open>handlers\<close> says that the socket's four handlers are still
  installed (\<^verbatim>\<open>finalize\<close> sets them to \<^verbatim>\<open>null\<close>), \<open>sent\<close> lists the frames handed to
  \<^verbatim>\<open>socket.send\<close>, and \<open>outcome\<close> is the promise: \<open>None\<close> while pending, \<open>Some (Inl e)\<close>
  rejected with \<open>e\<close>, \<open>Some (Inr ())\<close> resolved.
\<close>

record tts_conn =
  chunks :: "bytes list"
  mimeType :: jsval
  sampleRate :: int
  highestSeqSeen :: int
  done_flag :: bool
  finalError :: "jsval option"
  readyState :: ready_state
  handlers :: bool
  sent :: "jsval list"
  outcome :: "(jsval + unit) option"

text \<open>\<^verbatim>\<open>socket.close()\<close> starts the closing handshake; on a closed socket it does nothing.\<close>

definition socket_close :: "tts_conn \<Rightarrow> tts_conn" where
  "socket_close s = (if readyState s = CLOSED then s else s\<lparr>readyState := CLOSING\<rparr>)"

definition tts_send_ack :: "tts_request \<Rightarrow> tts_conn \<Rightarrow> tts_conn" where
  "tts_send_ack req s =
     (if readyState s = OPEN then
        s\<lparr>sent := sent s @
           [Object [(''type'', String ''ack''), (''request_id'', String (requestId req)),
                    (''last_seq'', Number (highestSeqSeen s))]]\<rparr>
      else s)"

text \<open>
  The body of \<^verbatim>\<open>socket.onmessage\<close>. When \<^verbatim>\<open>base64ToUint8Array\<close> throws, the handler is
  left before \<^verbatim>\<open>chunks.push\<close> has run: nothing is buffered, \<open>highestSeqSeen\<close> keeps its
  value and no acknowledgement is sent.
\<close>

definition tts_onmessage ::
  "(string \<Rightarrow> jsval option) \<Rightarrow> (string \<Rightarrow> string option) \<Rightarrow> tts_request \<Rightarrow> string \<Rightarrow> tts_conn \<Rightarrow> tts_conn"
where
  "tts_onmessage json_parse atob req data s =
     (let payload = parseTtsWsEventPayload json_parse (String data) in
      if \<not> truthy payload then s
      else if js_get payload ''type'' = String ''audio'' \<and> is_string (js_get payload ''audio'') then
        (let seq = (case js_get payload ''seq'' of Number n \<Rightarrow> n | _ \<Rightarrow> 0) in
         if shouldAcceptAudioSeq seq (highestSeqSeen s) then
           (case base64ToUint8Array atob
                   (case js_get payload ''audio'' of String a \<Rightarrow> a | _ \<Rightarrow> []) of
              None \<Rightarrow> s
            | Some chunk \<Rightarrow>
                tts_send_ack req
                  (s\<lparr>chunks := chunks s @ [chunk],
                     highestSeqSeen := seq,
                     mimeType := (if truthy (js_get payload ''mime_type'')
                                  then js_get payload ''mime_type'' else mimeType s),
                     sampleRate := (case js_get payload ''sample_rate'' of
                                      Number r \<Rightarrow> r | _ \<Rightarrow> sampleRate s)\<rparr>))
         else tts_send_ack req s)
      else if js_get payload ''type'' = String ''done'' then
        (let streamLastSeq =
               (case js_get payload ''last_seq'' of Number n \<Rightarrow> n | _ \<Rightarrow> highestSeqSeen s) in
         if streamLastSeq > highestSeqSeen s then
           socket_close
             (s\<lparr>finalError := Some (buildError (String ''tts_ws_sequence_gap'') True),
                done_flag := False\<rparr>)
         else socket_close (s\<lparr>done_flag := True\<rparr>))
      else if js_get payload ''type'' = String ''error'' then
        socket_close
          (s\<lparr>finalError :=
                Some (buildError (js_or (js_get payload ''error'') (String ''tts_ws_error''))
                        (js_get payload ''retryable'' \<noteq> Boolean False)),
             done_flag := False\<rparr>)
      else s)"

definition tts_onopen :: "tts_request \<Rightarrow> tts_conn \<Rightarrow> tts_conn" where
  "tts_onopen req s =
     s\<lparr>sent := sent s @
        [Object [(''type'', String ''start''), (''request_id'', String (requestId req)),
                 (''text'', String (req_text req)), (''voice'', String (req_voice req)),
                 (''accessibility_mode'', Boolean (req_accessibilityMode req)),
                 (''last_seq'', Number (highestSeqSeen s))]]\<rparr>"

definition tts_onerror :: "tts_conn \<Rightarrow> tts_conn" where
  "tts_onerror s =
     (if finalError s = None
      then s\<lparr>finalError := Some (buildError (String ''tts_ws_transport_error'') True)\<rparr>
      else s)"

text \<open>\<^verbatim>\<open>finalize(mode, error)\<close>: \<open>None\<close> is the mode \<^verbatim>\<open>"resolve"\<close>.\<close>

definition finalize :: "jsval option option \<Rightarrow> tts_conn \<Rightarrow> tts_conn" where
  "finalize mode s =
     (let s' = s\<lparr>handlers := False\<rparr> in
      case mode of
        None \<Rightarrow> s'\<lparr>outcome := Some (Inr ())\<rparr>
      | Some error \<Rightarrow>
          s'\<lparr>outcome := Some (Inl (case error of
                                     Some e \<Rightarrow> e
                                   | None \<Rightarrow> buildError (String ''tts_ws_closed'') True))\<rparr>)"

definition tts_onclose :: "bool \<Rightarrow> tts_conn \<Rightarrow> tts_conn" where
  "tts_onclose isStopped s =
     (if isStopped then finalize (Some (Some (buildError (String ''stream_stopped'') False))) s
      else if done_flag s then finalize None s
      else finalize
             (Some (Some (case finalError s of
                            Some e \<Rightarrow> e
                          | None \<Rightarrow> buildError (String ''tts_ws_closed_before_done'') True))) s)"

text \<open>
  One event of the socket. The browser calls a handler only while it is installed, fires
  \<^verbatim>\<open>open\<close> only on a connecting socket and \<^verbatim>\<open>message\<close> only on an open one (after
  \<^verbatim>\<open>socket.close()\<close> no further message is dispatched), and a \<^verbatim>\<open>close\<close> event leaves
  the socket closed.
\<close>

definition tts_step ::
  "(string \<Rightarrow> jsval option) \<Rightarrow> (string \<Rightarrow> string option) \<Rightarrow> tts_request \<Rightarrow> ws_event \<Rightarrow> tts_conn \<Rightarrow> tts_conn"
where
  "tts_step json_parse atob req ev s =
     (if \<not> handlers s then s
      else case ev of
        WsOpen \<Rightarrow> (if readyState s = CONNECTING then tts_onopen req (s\<lparr>readyState := OPEN\<rparr>) else s)
      | WsMessage data \<Rightarrow>
          (if readyState s = OPEN then tts_onmessage json_parse atob req data s else s)
      | WsError \<Rightarrow> tts_onerror s
      | WsClose isStopped \<Rightarrow> tts_onclose isStopped (s\<lparr>readyState := CLOSED\<rparr>))"

fun tts_run ::
  "(string \<Rightarrow> jsval option) \<Rightarrow> (string \<Rightarrow> string option) \<Rightarrow> tts_request \<Rightarrow> ws_event list \<Rightarrow> tts_conn \<Rightarrow> tts_conn"
where
  "tts_run json_parse atob req [] s = s"
| "tts_run json_parse atob req (ev # evs) s =
     tts_run json_parse atob req evs (tts_step json_parse atob req ev s)"


text \<open>The state in which \<^verbatim>\<open>connectOnce\<close> creates its socket.\<close>

definition tts_connect :: "tts_conn \<Rightarrow> tts_conn" where
  "tts_connect s =
     s\<lparr>done_flag := False, finalError := None, readyState := CONNECTING,
       handlers := True, sent := [], outcome := None\<rparr>"

text \<open>
  \<^verbatim>\<open>connectOnce()\<close> against one attempt's environment: what \<^verbatim>\<open>isStopped()\<close> answers at the
  start, and the events of the socket. The promise is pending (\<open>None\<close>) as long as no
  \<^verbatim>\<open>close\<close> event has come.
\<close>

definition connectOnce ::
  "(string \<Rightarrow> jsval option) \<Rightarrow> (string \<Rightarrow> string option) \<Rightarrow> tts_request \<Rightarrow> bool \<times> ws_event list \<Rightarrow> tts_conn
     \<Rightarrow> (jsval + unit) option \<times> tts_conn"
where
  "connectOnce json_parse atob req env s =
     (if fst env then (Some (Inl (buildError (String ''stream_stopped'') False)), s)
      else (let s' = tts_run json_parse atob req (snd env) (tts_connect s) in (outcome s', s')))"

datatype retry_action = Sleep int | Connect nat

text \<open>
  The loop \<^verbatim>\<open>for (attempt = 0; attempt <= TTS_WS_RETRY_DELAYS_MS.length; attempt += 1)\<close>,
  over any connection function \<open>conn\<close> (applied to the attempt number and the shared
  state). The result is \<open>None\<close> when an attempt's promise stays pending; \<open>Inl\<close> is the
  thrown error, \<open>Inr\<close> the state from which \<^verbatim>\<open>{ chunks, mimeType, sampleRate }\<close> is
  returned. The log lists the calls of \<^verbatim>\<open>sleep\<close> and of \<^verbatim>\<open>connectOnce\<close> in order.
\<close>

function tts_attempts ::
  "(nat \<Rightarrow> 'st \<Rightarrow> (jsval + unit) option \<times> 'st) \<Rightarrow> nat \<Rightarrow> 'st \<Rightarrow> retry_action list
     \<Rightarrow> retry_action list \<times> (jsval + 'st) option"
where
  "tts_attempts conn attempt st log =
     (if attempt \<le> length TTS_WS_RETRY_DELAYS_MS then
        (let log1 = (if attempt > 0
                     then log @ [Sleep (TTS_WS_RETRY_DELAYS_MS ! (attempt - 1))] else log);
             log2 = log1 @ [Connect attempt];
             r = conn attempt st
         in case fst r of
              None \<Rightarrow> (log2, None)
            | Some (Inr u) \<Rightarrow> (log2, Some (Inr (snd r)))
            | Some (Inl error) \<Rightarrow>
                (if \<not> shouldFallbackToSse error \<or> attempt = length TTS_WS_RETRY_DELAYS_MS
                 then (log2, Some (Inl error))
                 else tts_attempts conn (attempt + 1) (snd r) log2))
      else (log, Some (Inl (buildError (String ''tts_ws_exhausted'') True))))"
  by pat_completeness auto
termination
  by (relation "measure (\<lambda>(conn, attempt, st, log). Suc (length TTS_WS_RETRY_DELAYS_MS) - attempt)") auto

definition tts_initial :: tts_conn where
  "tts_initial =
     \<lparr>chunks = [], mimeType = String ''audio/mpeg'', sampleRate = 16000, highestSeqSeen = 0,
      done_flag = False, finalError = None, readyState = CONNECTING, handlers = False,
      sent = [], outcome = None\<rparr>"

text \<open>
  \<^verbatim>\<open>collectTtsViaWebSocket\<close>: \<open>env k\<close> is the environment of attempt \<open>k\<close>.
\<close>

definition collectTtsViaWebSocket ::
  "(string \<Rightarrow> jsval option) \<Rightarrow> (string \<Rightarrow> string option) \<Rightarrow> tts_request \<Rightarrow> (nat \<Rightarrow> bool \<times> ws_event list)
     \<Rightarrow> retry_action list \<times> (jsval + tts_conn) option"
where
  "collectTtsViaWebSocket json_parse atob req env =
     tts_attempts (\<lambda>k. connectOnce json_parse atob req (env k)) 0 tts_initial []"

section \<open>STT WebSocket session\<close>

datatype 'a promise = Pending | Fulfilled 'a | Rejected jsval

text \<open>Calling \<^verbatim>\<open>resolve\<close> or \<^verbatim>\<open>reject\<close> on a promise that is settled changes nothing.\<close>

definition settle :: "'a promise \<Rightarrow> 'a promise \<Rightarrow> 'a promise" where
  "settle p q = (case p of Pending \<Rightarrow> q | _ \<Rightarrow> p)"

text \<open>
  \<^verbatim>\<open>String.prototype.trim\<close> on the ASCII white space (tab, line feed, vertical tab, form
  feed, carriage return, space); the Unicode spaces beyond ASCII are not modelled.
\<close>

definition is_js_space :: "char \<Rightarrow> bool" where
  "is_js_space c = (let n = (of_char c :: nat) in (9 \<le> n \<and> n \<le> 13) \<or> n = 32)"

definition trim :: "string \<Rightarrow> string" where
  "trim s = rev (dropWhile is_js_space (rev (dropWhile is_js_space s)))"

record stt_config =
  cfg_projectId :: string
  cfg_sessionId :: "string option"
  cfg_language :: "string option"
  cfg_mimeType :: "string option"

datatype stt_event = SttOpen | SttMessage string | SttError | SttClose | SttCancel

text \<open>
  The variables of \<^verbatim>\<open>startSttWebSocketStream\<close>. \<open>sessionIds\<close> and \<open>partials\<close> list the
  calls of \<^verbatim>\<open>events.onSessionId\<close> and \<^verbatim>\<open>events.onPartial\<close>. The promise \<open>donePromise\<close> is
  the one \<^verbatim>\<open>stop()\<close> returns; it is fulfilled with \<^verbatim>\<open>{text, session_id}\<close>. The send queue
  of \<^verbatim>\<open>pushChunk\<close> and \<^verbatim>\<open>stop\<close> reads these variables and writes none of them apart from
  its own counter; it is not part of the model.
\<close>

record stt_state =
  finalText :: string
  finalSessionId :: string
  stopped :: bool
  settled :: bool
  startPromise :: "unit promise"
  donePromise :: "(string \<times> string) promise"
  stt_readyState :: ready_state
  stt_sent :: "jsval list"
  sessionIds :: "string list"
  partials :: "(int \<times> string) list"

definition startSttWebSocketStream :: "stt_config \<Rightarrow> stt_state" where
  "startSttWebSocketStream config =
     \<lparr>finalText = [],
      finalSessionId = (case cfg_sessionId config of Some sid \<Rightarrow> sid | None \<Rightarrow> []),
      stopped = False, settled = False, startPromise = Pending, donePromise = Pending,
      stt_readyState = CONNECTING, stt_sent = [], sessionIds = [], partials = []\<rparr>"

definition stt_socket_close :: "stt_state \<Rightarrow> stt_state" where
  "stt_socket_close s = (if stt_readyState s = CLOSED then s else s\<lparr>stt_readyState := CLOSING\<rparr>)"

definition rejectAll :: "jsval \<Rightarrow> stt_state \<Rightarrow> stt_state" where
  "rejectAll error s =
     (if settled s then s
      else s\<lparr>settled := True,
             startPromise := settle (startPromise s) (Rejected error),
             donePromise := settle (donePromise s) (Rejected error)\<rparr>)"

definition resolveDoneIfPossible :: "stt_state \<Rightarrow> stt_state" where
  "resolveDoneIfPossible s =
     (if settled s then s
      else if trim (finalText s) = [] \<or> finalSessionId s = [] then s
      else s\<lparr>settled := True,
             startPromise := settle (startPromise s) (Fulfilled ()),
             donePromise := settle (donePromise s) (Fulfilled (trim (finalText s), finalSessionId s))\<rparr>)"

definition stt_onopen :: "stt_config \<Rightarrow> stt_state \<Rightarrow> stt_state" where
  "stt_onopen config s =
     s\<lparr>stt_sent := stt_sent s @
        [Object [(''type'', String ''start''), (''project_id'', String (cfg_projectId config)),
                 (''session_id'', (case cfg_sessionId config of
                                     Some sid \<Rightarrow> (if sid = [] then Undefined else String sid)
                                   | None \<Rightarrow> Undefined)),
                 (''language'', String (case cfg_language config of
                                          Some l \<Rightarrow> (if l = [] then ''tr'' else l) | None \<Rightarrow> ''tr'')),
                 (''mime_type'', String (case cfg_mimeType config of
                                           Some m \<Rightarrow> (if m = [] then ''audio/webm'' else m)
                                         | None \<Rightarrow> ''audio/webm''))]]\<rparr>"

definition stt_onmessage :: "(string \<Rightarrow> jsval option) \<Rightarrow> string \<Rightarrow> stt_state \<Rightarrow> stt_state" where
  "stt_onmessage json_parse data s =
     (let payload = parseSttWsEventPayload json_parse (String data) in
      if \<not> truthy payload then s
      else if js_get payload ''type'' = String ''start_ack'' \<and> is_string (js_get payload ''session_id'') then
        (let sid = (case js_get payload ''session_id'' of String x \<Rightarrow> x | _ \<Rightarrow> []) in
         s\<lparr>finalSessionId := sid, sessionIds := sessionIds s @ [sid],
           startPromise := settle (startPromise s) (Fulfilled ())\<rparr>)
      else if js_get payload ''type'' = String ''partial'' \<and> is_string (js_get payload ''text'') then
        s\<lparr>partials := partials s @
             [((case js_get payload ''seq'' of Number n \<Rightarrow> n | _ \<Rightarrow> 0),
               (case js_get payload ''text'' of String x \<Rightarrow> x | _ \<Rightarrow> []))]\<rparr>
      else if js_get payload ''type'' = String ''final'' \<and> is_string (js_get payload ''text'') then
        (let s1 = s\<lparr>finalText := (case js_get payload ''text'' of String x \<Rightarrow> x | _ \<Rightarrow> [])\<rparr> in
         case js_get payload ''session_id'' of
           String sid \<Rightarrow> s1\<lparr>finalSessionId := sid, sessionIds := sessionIds s1 @ [sid]\<rparr>
         | _ \<Rightarrow> s1)
      else if js_get payload ''type'' = String ''done'' then
        stt_socket_close (resolveDoneIfPossible s)
      else if js_get payload ''type'' = String ''error'' then
        stt_socket_close
          (rejectAll (buildError (js_or (js_get payload ''error'') (String ''stt_ws_error''))
                        (js_get payload ''retryable'' \<noteq> Boolean False)) s)
      else s)"

definition stt_onerror :: "stt_state \<Rightarrow> stt_state" where
  "stt_onerror s = rejectAll (buildError (String ''stt_ws_transport_error'') True) s"

definition stt_onclose :: "stt_state \<Rightarrow> stt_state" where
  "stt_onclose s =
     (if settled s then s
      else if finalText s \<noteq> [] \<and> finalSessionId s \<noteq> [] then resolveDoneIfPossible s
      else rejectAll (buildError (String ''stt_ws_closed_before_done'') True) s)"

text \<open>
  One event of the STT socket, or the caller's \<^verbatim>\<open>cancel()\<close>. As for the TTS socket, the
  browser fires \<^verbatim>\<open>open\<close> on a connecting socket and \<^verbatim>\<open>message\<close> on an open one only,
  and nothing once the socket is closed.
\<close>

definition stt_step :: "(string \<Rightarrow> jsval option) \<Rightarrow> stt_config \<Rightarrow> stt_event \<Rightarrow> stt_state \<Rightarrow> stt_state" where
  "stt_step json_parse config ev s =
     (case ev of
        SttOpen \<Rightarrow> (if stt_readyState s = CONNECTING
                    then stt_onopen config (s\<lparr>stt_readyState := OPEN\<rparr>) else s)
      | SttMessage data \<Rightarrow> (if stt_readyState s = OPEN then stt_onmessage json_parse data s else s)
      | SttError \<Rightarrow> (if stt_readyState s = CLOSED then s else stt_onerror s)
      | SttClose \<Rightarrow> (if stt_readyState s = CLOSED then s else stt_onclose (s\<lparr>stt_readyState := CLOSED\<rparr>))
      | SttCancel \<Rightarrow> stt_socket_close (s\<lparr>stopped := True\<rparr>))"

fun stt_run :: "(string \<Rightarrow> jsval option) \<Rightarrow> stt_config \<Rightarrow> stt_event list \<Rightarrow> stt_state \<Rightarrow> stt_state" where
  "stt_run json_parse config [] s = s"
| "stt_run json_parse config (ev # evs) s = stt_run json_parse config evs (stt_step json_parse config ev s)"

section \<open>Playback controller\<close>

record audio_element =
  paused :: bool
  src :: "string option"
  stop_events :: nat

text \<open>
  The module-level \<^verbatim>\<open>audioPlaybackGeneration\<close> and \<^verbatim>\<open>activeAudioElements\<close> (the set, as the
  list of its elements, each with a handle). The counter is an unbounded integer: a
  double counts exactly up to \<open>2^53\<close>, which no run reaches in steps of one.
\<close>

record playback =
  audioPlaybackGeneration :: int
  activeAudioElements :: "(nat \<times> audio_element) list"

definition wasPlaybackStoppedAfter :: "playback \<Rightarrow> int \<Rightarrow> bool" where
  "wasPlaybackStoppedAfter p generationAtStart = (audioPlaybackGeneration p \<noteq> generationAtStart)"

definition getAudioPlaybackGeneration :: "playback \<Rightarrow> int" where
  "getAudioPlaybackGeneration p = audioPlaybackGeneration p"

text \<open>
  The body of the loop: the stop event is dispatched, then \<^verbatim>\<open>pause()\<close>,
  \<^verbatim>\<open>removeAttribute("src")\<close> and \<^verbatim>\<open>load()\<close>. An exception of one of them is caught and
  ignored by the source; the element operations of the model do not fail.
\<close>

definition halt_element :: "audio_element \<Rightarrow> audio_element" where
  "halt_element e = e\<lparr>stop_events := stop_events e + 1, paused := True, src := None\<rparr>"

definition stopActiveAudioPlayback :: "playback \<Rightarrow> playback" where
  "stopActiveAudioPlayback p =
     p\<lparr>audioPlaybackGeneration := audioPlaybackGeneration p + 1,
       activeAudioElements := map (\<lambda>(h, e). (h, halt_element e)) (activeAudioElements p)\<rparr>"

section \<open>Pending agent resume state\<close>

record tool_call =
  call_id :: string
  tool :: string
  args :: jsval

record tool_result =
  result_call_id :: string
  result :: string

record PendingAgentResume =
  sessionId :: string
  projectId :: string
  model :: string
  voice :: string
  accessibilityMode :: bool
  pendingToolCalls :: "tool_call list"
  completedResults :: "tool_result list"
  savedAt :: int

definition RESUME_STORAGE_KEY :: string where
  "RESUME_STORAGE_KEY = ''bulut_agent_resume''"

definition RESUME_TTL_MS :: int where
  "RESUME_TTL_MS = 60000"

text \<open>
  \<^verbatim>\<open>localStorage\<close>: \<open>None\<close> where \<^verbatim>\<open>typeof localStorage === "undefined"\<close>, otherwise the
  map from keys to stored strings.
\<close>

type_synonym local_storage = "(string \<Rightarrow> string option) option"

definition clearPendingAgentResume :: "local_storage \<Rightarrow> local_storage" where
  "clearPendingAgentResume ls =
     (case ls of None \<Rightarrow> None | Some m \<Rightarrow> Some (m(RESUME_STORAGE_KEY := None)))"

text \<open>
  \<^verbatim>\<open>ToNumber\<close>, which the subtraction \<^verbatim>\<open>Date.now() - parsed.savedAt\<close> applies to its right
  operand; \<open>None\<close> is \<^verbatim>\<open>NaN\<close>. The conversion of a string or of an array (through its
  string form) is the platform's and is the parameter \<open>str_num\<close>.
\<close>

fun js_to_number :: "(jsval \<Rightarrow> int option) \<Rightarrow> jsval \<Rightarrow> int option" where
  "js_to_number str_num Undefined = None"
| "js_to_number str_num Null = Some 0"
| "js_to_number str_num (Boolean b) = Some (if b then 1 else 0)"
| "js_to_number str_num (Number n) = Some n"
| "js_to_number str_num (Object fs) = None"
| "js_to_number str_num v = str_num v"

text \<open>
  \<^verbatim>\<open>getPendingAgentResume\<close>, with \<open>now\<close> for \<^verbatim>\<open>Date.now()\<close>: the value returned and the
  storage afterwards. \<^verbatim>\<open>JSON.parse\<close> never yields \<^verbatim>\<open>undefined\<close>; on \<^verbatim>\<open>null\<close> the read of
  \<^verbatim>\<open>parsed.savedAt\<close> throws a \<^verbatim>\<open>TypeError\<close>, which the \<^verbatim>\<open>catch\<close> handles like a parse
  error. A comparison with \<^verbatim>\<open>NaN\<close> is false.
\<close>

definition getPendingAgentResume ::
  "(string \<Rightarrow> jsval option) \<Rightarrow> (jsval \<Rightarrow> int option) \<Rightarrow> int \<Rightarrow> local_storage \<Rightarrow> jsval \<times> local_storage"
where
  "getPendingAgentResume json_parse str_num now ls =
     (case ls of
        None \<Rightarrow> (Null, ls)
      | Some m \<Rightarrow>
          (case m RESUME_STORAGE_KEY of
             None \<Rightarrow> (Null, ls)
           | Some raw \<Rightarrow>
               if raw = [] then (Null, ls)
               else (case json_parse raw of
                       None \<Rightarrow> (Null, clearPendingAgentResume ls)
                     | Some parsed \<Rightarrow>
                         if parsed = Null then (Null, clearPendingAgentResume ls)
                         else (case js_to_number str_num (js_get parsed ''savedAt'') of
                                 None \<Rightarrow> (parsed, ls)
                               | Some t \<Rightarrow>
                                   if now - t > RESUME_TTL_MS
                                   then (Null, clearPendingAgentResume ls)
                                   else (parsed, ls)))))"

text \<open>
  The two strings that \<^verbatim>\<open>agentResumeStream\<close> synthesises, in UTF-8:
  the navigation result is \<^verbatim>\<open>`Navigasyon tamamlandi. Su anki sayfa: ${href}\nSayfa baglami: ${pageContext}`\<close>
  and the other one \<^verbatim>\<open>"Sayfa yeniden yuklendi, bu arac calistirilamadi."\<close>, both with their
  Turkish letters.
\<close>

definition navigate_result :: "string \<Rightarrow> string \<Rightarrow> string" where
  "navigate_result href pageContext =
     ''Navigasyon tamamland'' @ [CHR 0xC4, CHR 0xB1] @ ''. '' @ [CHR 0xC5, CHR 0x9E]
     @ ''u anki sayfa: '' @ href @ [CHR 0x0A] @ ''Sayfa ba'' @ [CHR 0xC4, CHR 0x9F] @ ''lam''
     @ [CHR 0xC4, CHR 0xB1] @ '': '' @ pageContext"

definition skipped_result :: string where
  "skipped_result =
     ''Sayfa yeniden y'' @ [CHR 0xC3, CHR 0xBC] @ ''klendi, bu ara'' @ [CHR 0xC3, CHR 0xA7] @ '' ''
     @ [CHR 0xC3, CHR 0xA7] @ ''al'' @ [CHR 0xC4, CHR 0xB1, CHR 0xC5, CHR 0x9F] @ ''t''
     @ [CHR 0xC4, CHR 0xB1] @ ''r'' @ [CHR 0xC4, CHR 0xB1] @ ''lamad'' @ [CHR 0xC4, CHR 0xB1] @ ''.''"

text \<open>
  The loop \<^verbatim>\<open>for (const tc of resumeState.pendingToolCalls)\<close> over the growing
  \<^verbatim>\<open>allResults\<close>; \<open>window_href\<close> is \<^verbatim>\<open>window.location.href\<close>, or \<open>None\<close> without a window.
\<close>

fun resume_results :: "string option \<Rightarrow> string \<Rightarrow> tool_call list \<Rightarrow> tool_result list \<Rightarrow> tool_result list" where
  "resume_results window_href pageContext [] allResults = allResults"
| "resume_results window_href pageContext (tc # tcs) allResults =
     (if \<exists>r \<in> set allResults. result_call_id r = call_id tc
      then resume_results window_href pageContext tcs allResults
      else if tool tc = ''navigate'' then
        resume_results window_href pageContext tcs
          (allResults @
             [\<lparr>result_call_id = call_id tc,
               result = navigate_result (case window_href of Some h \<Rightarrow> h | None \<Rightarrow> []) pageContext\<rparr>])
      else
        resume_results window_href pageContext tcs
          (allResults @ [\<lparr>result_call_id = call_id tc, result = skipped_result\<rparr>]))"

definition resume_allResults :: "string option \<Rightarrow> string \<Rightarrow> PendingAgentResume \<Rightarrow> tool_result list" where
  "resume_allResults window_href pageContext resumeState =
     resume_results window_href pageContext (pendingToolCalls resumeState) (completedResults resumeState)"

section \<open>Agent streams\<close>

text \<open>
  \<^verbatim>\<open>agentVoiceChatStream\<close>, \<^verbatim>\<open>agentTextChatStream\<close> and \<^verbatim>\<open>agentResumeStream\<close> run the same
  executor: an optional STT request, the agent socket, the TTS collection over WebSocket
  with its SSE fallback, and the playback. The executor is suspended at an \<^verbatim>\<open>await\<close>
  between two events, so the model is a step function over the events that wake it up
  or that call a handler of the agent socket; \<open>phase\<close> says which \<^verbatim>\<open>await\<close> the executor
  is at. What the awaited functions do inside (\<^verbatim>\<open>transcribeAudio\<close>,
  \<^verbatim>\<open>collectTtsViaWebSocket\<close>, \<^verbatim>\<open>collectTtsViaSse\<close>, \<^verbatim>\<open>playBufferedAudio\<close>) is the environment's
  choice of event. A continuation of the executor runs as a microtask, before the next
  event is dispatched, so it is part of the step that settles the awaited promise.
  The callbacks of the caller are assumed not to throw.
\<close>

record agent_input =
  in_projectId :: string
  in_sessionId :: "string option"
  in_model :: string
  in_voice :: string
  in_pageContext :: "string option"
  in_accessibilityMode :: "bool option"

datatype variant =
    Voice agent_input
  | TextChat string agent_input
  | ResumeStream PendingAgentResume string "string option"

datatype phase = AwaitStt | AwaitAgent | AwaitTtsWs | AwaitSse | AwaitPlayback | Finished

text \<open>The place of a call of \<^verbatim>\<open>events.onError\<close>: a handler of the agent socket, or the
  \<^verbatim>\<open>catch\<close> block of the executor, which also rejects the promise.\<close>

datatype callsite = SocketHandler | CatchBlock

datatype callback =
    OnError callsite jsval
  | OnTranscription string string
  | OnSessionId string
  | OnIteration jsval jsval
  | OnAssistantDelta string
  | OnIntermediateReply string
  | OnToolCalls jsval
  | OnAssistantDone jsval
  | OnAudioStateChange string
  | HideAgentCursor

datatype agent_event =
    SttResult string string
  | SttFailure jsval
  | AgentOpen
  | AgentMessage string
  | AgentError
  | AgentClose
  | TtsWsResult "bytes list"
  | TtsWsFailure jsval
  | SseResult "bytes list"
  | SseFailure jsval
  | PlaybackEnded
  | PlaybackFailure jsval
  | Stop

text \<open>
  The variables of one stream. \<open>agent_socket\<close> is the ready state of the agent socket
  once it is created; \<open>activeSocket\<close> says that the variable of that name holds the
  agent socket; \<open>calls\<close> lists the calls into the caller, in order; \<open>done_promise\<close> is the
  controller's \<^verbatim>\<open>done\<close> and \<open>settle_calls\<close> counts the calls of its \<^verbatim>\<open>resolve\<close> and
  \<^verbatim>\<open>reject\<close>; \<open>player\<close> is the global playback state that \<^verbatim>\<open>stop()\<close> invalidates.
\<close>

record agent_stream =
  isStopped :: bool
  errorEmitted :: bool
  phase :: phase
  agent_socket :: "ready_state option"
  activeSocket :: bool
  resolved :: bool
  finalReply :: jsval
  accumulatedDelta :: string
  effectiveSessionId :: string
  userText :: string
  agent_sent :: "jsval list"
  calls :: "callback list"
  done_promise :: "unit promise"
  settle_calls :: nat
  player :: playback

definition call :: "callback \<Rightarrow> agent_stream \<Rightarrow> agent_stream" where
  "call c s = s\<lparr>calls := calls s @ [c]\<rparr>"

definition agent_socket_close :: "agent_stream \<Rightarrow> agent_stream" where
  "agent_socket_close s =
     (case agent_socket s of
        Some CONNECTING \<Rightarrow> s\<lparr>agent_socket := Some CLOSING\<rparr>
      | Some OPEN \<Rightarrow> s\<lparr>agent_socket := Some CLOSING\<rparr>
      | _ \<Rightarrow> s)"

definition done_resolve :: "agent_stream \<Rightarrow> agent_stream" where
  "done_resolve s =
     s\<lparr>done_promise := settle (done_promise s) (Fulfilled ()), settle_calls := settle_calls s + 1\<rparr>"

definition done_reject :: "jsval \<Rightarrow> agent_stream \<Rightarrow> agent_stream" where
  "done_reject err s =
     s\<lparr>done_promise := settle (done_promise s) (Rejected err), settle_calls := settle_calls s + 1\<rparr>"

text \<open>The \<^verbatim>\<open>finally\<close> block, after which the executor has returned.\<close>

definition finally_block :: "agent_stream \<Rightarrow> agent_stream" where
  "finally_block s =
     (let s1 = (if activeSocket s then agent_socket_close s else s)
      in s1\<lparr>activeSocket := False, phase := Finished\<rparr>)"

text \<open>
  The \<^verbatim>\<open>catch\<close> block; \<open>describe err\<close> is
  \<^verbatim>\<open>err instanceof Error ? err.message : String(err)\<close>.
\<close>

definition catch_block :: "(jsval \<Rightarrow> string) \<Rightarrow> jsval \<Rightarrow> agent_stream \<Rightarrow> agent_stream" where
  "catch_block describe err s =
     finally_block
       (done_reject err
          (if \<not> errorEmitted s then call (OnError CatchBlock (String (describe err))) s else s))"

text \<open>\<^verbatim>\<open>return resolve()\<close> inside the \<^verbatim>\<open>try\<close>.\<close>

definition return_resolve :: "agent_stream \<Rightarrow> agent_stream" where
  "return_resolve s = finally_block (done_resolve s)"

text \<open>The end of the \<^verbatim>\<open>try\<close> block: the cursor is hidden unless stopped, then \<^verbatim>\<open>resolve()\<close>.\<close>

definition finish_turn :: "agent_stream \<Rightarrow> agent_stream" where
  "finish_turn s = return_resolve (if \<not> isStopped s then call HideAgentCursor s else s)"

text \<open>The executor from the point where the agent promise is resolved with \<open>assistantText\<close>.\<close>

definition after_agent :: "jsval \<Rightarrow> agent_stream \<Rightarrow> agent_stream" where
  "after_agent assistantText s =
     (let s1 = s\<lparr>activeSocket := False\<rparr> in
      if isStopped s1 \<or> \<not> truthy assistantText then finish_turn s1
      else (call (OnAudioStateChange ''rendering'') s1)\<lparr>phase := AwaitTtsWs\<rparr>)"

text \<open>The executor from the point where \<open>ttsResult\<close> is there, with its \<open>chunks\<close>.\<close>

definition after_tts :: "bytes list \<Rightarrow> agent_stream \<Rightarrow> agent_stream" where
  "after_tts ttsChunks s =
     (if \<not> isStopped s \<and> length ttsChunks > 0 then s\<lparr>phase := AwaitPlayback\<rparr>
      else finish_turn (call (OnAudioStateChange ''done'') s))"

definition finish :: "jsval \<Rightarrow> agent_stream \<Rightarrow> agent_stream" where
  "finish reply s = (if resolved s then s else after_agent reply (s\<lparr>resolved := True\<rparr>))"

definition fail :: "(jsval \<Rightarrow> string) \<Rightarrow> jsval \<Rightarrow> agent_stream \<Rightarrow> agent_stream" where
  "fail describe error s =
     (if resolved s then s else catch_block describe error (s\<lparr>resolved := True\<rparr>))"

text \<open>\<^verbatim>\<open>new Error(message)\<close>.\<close>

definition new_Error :: "jsval \<Rightarrow> jsval" where
  "new_Error message = Object [(''message'', message)]"

text \<open>The executor of the agent promise: no socket is created on a stopped stream.\<close>

definition open_agent_socket :: "agent_stream \<Rightarrow> agent_stream" where
  "open_agent_socket s =
     (if isStopped s then after_agent (String []) (s\<lparr>phase := AwaitAgent\<rparr>)
      else s\<lparr>phase := AwaitAgent, agent_socket := Some CONNECTING, activeSocket := True,
             finalReply := String [], resolved := False, accumulatedDelta := []\<rparr>)"

definition opt_string :: "string option \<Rightarrow> jsval" where
  "opt_string x = (case x of Some v \<Rightarrow> String v | None \<Rightarrow> Undefined)"

definition opt_bool :: "bool option \<Rightarrow> jsval" where
  "opt_bool x = (case x of Some v \<Rightarrow> Boolean v | None \<Rightarrow> Undefined)"

definition tool_call_json :: "tool_call \<Rightarrow> jsval" where
  "tool_call_json tc =
     Object [(''call_id'', String (call_id tc)), (''tool'', String (tool tc)), (''args'', args tc)]"

definition tool_result_json :: "tool_result \<Rightarrow> jsval" where
  "tool_result_json r =
     Object [(''call_id'', String (result_call_id r)), (''result'', String (result r))]"

text \<open>The frame that \<^verbatim>\<open>socket.onopen\<close> sends, before \<^verbatim>\<open>JSON.stringify\<close>.\<close>

fun start_frame :: "variant \<Rightarrow> agent_stream \<Rightarrow> jsval" where
  "start_frame (Voice inp) s =
     Object [(''type'', String ''start''), (''project_id'', String (in_projectId inp)),
             (''session_id'', String (effectiveSessionId s)), (''user_text'', String (userText s)),
             (''model'', String (in_model inp)), (''page_context'', opt_string (in_pageContext inp)),
             (''accessibility_mode'', opt_bool (in_accessibilityMode inp))]"
| "start_frame (TextChat txt inp) s =
     Object [(''type'', String ''start''), (''project_id'', String (in_projectId inp)),
             (''session_id'', (case in_sessionId inp of Some sid \<Rightarrow> String sid | None \<Rightarrow> Null)),
             (''user_text'', String txt),
             (''model'', String (in_model inp)), (''page_context'', opt_string (in_pageContext inp)),
             (''accessibility_mode'', opt_bool (in_accessibilityMode inp))]"
| "start_frame (ResumeStream resumeState pageContext window_href) s =
     Object [(''type'', String ''resume''), (''project_id'', String (projectId resumeState)),
             (''session_id'', String (sessionId resumeState)), (''model'', String (model resumeState)),
             (''page_context'', String pageContext),
             (''accessibility_mode'', Boolean (accessibilityMode resumeState)),
             (''pending_tool_calls'', Array (map tool_call_json (pendingToolCalls resumeState))),
             (''tool_results'',
                Array (map tool_result_json (resume_allResults window_href pageContext resumeState)))]"

definition agent_onopen :: "variant \<Rightarrow> agent_stream \<Rightarrow> agent_stream" where
  "agent_onopen v s = s\<lparr>agent_sent := agent_sent s @ [start_frame v s]\<rparr>"

fun is_array :: "jsval \<Rightarrow> bool" where
  "is_array (Array xs) = True"
| "is_array v = False"

text \<open>
  \<^verbatim>\<open>socket.onmessage\<close>. A frame that does not parse is dropped; on the frame \<^verbatim>\<open>null\<close>
  the read of \<^verbatim>\<open>data.type\<close> throws and the handler ends there. Of the branch
  \<^verbatim>\<open>tool_calls\<close> the model has what runs before its first \<^verbatim>\<open>await\<close>; the execution of the
  tools and the frame \<^verbatim>\<open>tool_results\<close> touch none of the variables of this record apart
  from the frames sent and the callbacks \<^verbatim>\<open>onToolResult\<close>, and are left out.
\<close>

definition agent_onmessage ::
  "(string \<Rightarrow> jsval option) \<Rightarrow> (jsval \<Rightarrow> string) \<Rightarrow> string \<Rightarrow> agent_stream \<Rightarrow> agent_stream"
where
  "agent_onmessage json_parse describe raw s =
     (case json_parse raw of
        None \<Rightarrow> s
      | Some data \<Rightarrow>
          if data = Null then s
          else if js_get data ''type'' = String ''session'' \<and> is_string (js_get data ''session_id'') then
            (let sid = (case js_get data ''session_id'' of String x \<Rightarrow> x | _ \<Rightarrow> []) in
             call (OnSessionId sid) (s\<lparr>effectiveSessionId := sid\<rparr>))
          else if js_get data ''type'' = String ''iteration'' then
            call (OnIteration (js_get data ''iteration'') (js_get data ''max_iterations'')) s
          else if js_get data ''type'' = String ''reply_delta'' \<and> is_string (js_get data ''delta'') then
            (let delta = (case js_get data ''delta'' of String x \<Rightarrow> x | _ \<Rightarrow> []) in
             call (OnAssistantDelta delta) (s\<lparr>accumulatedDelta := accumulatedDelta s @ delta\<rparr>))
          else if js_get data ''type'' = String ''tool_calls'' \<and> is_array (js_get data ''calls'') then
            (let s1 = (if trim (accumulatedDelta s) \<noteq> []
                       then call (OnIntermediateReply (trim (accumulatedDelta s))) s else s)
             in call (OnToolCalls (js_get data ''calls'')) (s1\<lparr>accumulatedDelta := []\<rparr>))
          else if js_get data ''type'' = String ''agent_done'' then
            (let reply = js_or (js_get data ''final_reply'') (String []);
                 s1 = call (OnAssistantDone reply) (s\<lparr>finalReply := reply\<rparr>);
                 s2 = (case js_get data ''session_id'' of
                         String sid \<Rightarrow> call (OnSessionId sid) s1 | _ \<Rightarrow> s1)
             in finish reply s2)
          else if js_get data ''type'' = String ''error'' then
            (let errMsg = js_or (js_get data ''error'') (String ''Agent error'')
             in fail describe (new_Error errMsg)
                  (call (OnError SocketHandler errMsg) (s\<lparr>errorEmitted := True\<rparr>)))
          else s)"

fun socket_error_text :: "variant \<Rightarrow> string" where
  "socket_error_text (Voice inp) = ''Agent WebSocket connection error''"
| "socket_error_text v = ''Agent WebSocket error''"

definition agent_onerror :: "(jsval \<Rightarrow> string) \<Rightarrow> variant \<Rightarrow> agent_stream \<Rightarrow> agent_stream" where
  "agent_onerror describe v s =
     fail describe (new_Error (String (socket_error_text v)))
       (call (OnError SocketHandler (String (socket_error_text v))) (s\<lparr>errorEmitted := True\<rparr>))"

definition agent_onclose :: "agent_stream \<Rightarrow> agent_stream" where
  "agent_onclose s = finish (finalReply s) s"

text \<open>The controller's \<^verbatim>\<open>stop()\<close>.\<close>

definition stop :: "agent_stream \<Rightarrow> agent_stream" where
  "stop s =
     (let s1 = s\<lparr>isStopped := True, player := stopActiveAudioPlayback (player s)\<rparr>
      in if activeSocket s1 then agent_socket_close s1 else s1)"

text \<open>
  One event. An event of the agent socket needs the socket (\<^verbatim>\<open>open\<close> a connecting one,
  \<^verbatim>\<open>message\<close> an open one, \<^verbatim>\<open>error\<close> and \<^verbatim>\<open>close\<close> one that is not closed yet); the
  completion of an awaited call needs the executor to be at that \<^verbatim>\<open>await\<close>.
\<close>

definition agent_step ::
  "(string \<Rightarrow> jsval option) \<Rightarrow> (jsval \<Rightarrow> string) \<Rightarrow> variant \<Rightarrow> agent_event \<Rightarrow> agent_stream \<Rightarrow> agent_stream"
where
  "agent_step json_parse describe v ev s =
     (case ev of
        SttResult txt sid \<Rightarrow>
          (if phase s = AwaitStt then
             (let s1 = call (OnTranscription sid txt) (s\<lparr>effectiveSessionId := sid, userText := txt\<rparr>)
              in if isStopped s1 then return_resolve s1 else open_agent_socket s1)
           else s)
      | SttFailure err \<Rightarrow> (if phase s = AwaitStt then catch_block describe err s else s)
      | AgentOpen \<Rightarrow>
          (if agent_socket s = Some CONNECTING
           then agent_onopen v (s\<lparr>agent_socket := Some OPEN\<rparr>) else s)
      | AgentMessage raw \<Rightarrow>
          (if agent_socket s = Some OPEN then agent_onmessage json_parse describe raw s else s)
      | AgentError \<Rightarrow>
          (if agent_socket s = None \<or> agent_socket s = Some CLOSED then s
           else agent_onerror describe v s)
      | AgentClose \<Rightarrow>
          (if agent_socket s = None \<or> agent_socket s = Some CLOSED then s
           else agent_onclose (s\<lparr>agent_socket := Some CLOSED\<rparr>))
      | TtsWsResult ttsChunks \<Rightarrow> (if phase s = AwaitTtsWs then after_tts ttsChunks s else s)
      | TtsWsFailure wsError \<Rightarrow>
          (if phase s = AwaitTtsWs
           then (if isStopped s then return_resolve s else s\<lparr>phase := AwaitSse\<rparr>)
           else s)
      | SseResult ttsChunks \<Rightarrow> (if phase s = AwaitSse then after_tts ttsChunks s else s)
      | SseFailure err \<Rightarrow> (if phase s = AwaitSse then catch_block describe err s else s)
      | PlaybackEnded \<Rightarrow> (if phase s = AwaitPlayback then finish_turn s else s)
      | PlaybackFailure err \<Rightarrow> (if phase s = AwaitPlayback then catch_block describe err s else s)
      | Stop \<Rightarrow> stop s)"

fun agent_run ::
  "(string \<Rightarrow> jsval option) \<Rightarrow> (jsval \<Rightarrow> string) \<Rightarrow> variant \<Rightarrow> agent_event list \<Rightarrow> agent_stream \<Rightarrow> agent_stream"
where
  "agent_run json_parse describe v [] s = s"
| "agent_run json_parse describe v (ev # evs) s =
     agent_run json_parse describe v evs (agent_step json_parse describe v ev s)"



text \<open>
  The calls of \<^verbatim>\<open>onError\<close> made by the \<^verbatim>\<open>catch\<close> block, and those made by a socket handler.
\<close>

fun is_catch_report :: "callback \<Rightarrow> bool" where
  "is_catch_report (OnError CatchBlock m) = True"
| "is_catch_report c = False"

fun is_handler_report :: "callback \<Rightarrow> bool" where
  "is_handler_report (OnError SocketHandler m) = True"
| "is_handler_report c = False"

section \<open>Observing the retry loop\<close>

text \<open>
  The state in which attempt \<open>k\<close> starts when every earlier attempt was made, and what
  attempt \<open>k\<close> then answers.
\<close>

fun attempt_state :: "(nat \<Rightarrow> 'st \<Rightarrow> (jsval + unit) option \<times> 'st) \<Rightarrow> 'st \<Rightarrow> nat \<Rightarrow> 'st" where
  "attempt_state conn st 0 = st"
| "attempt_state conn st (Suc k) = snd (conn k (attempt_state conn st k))"

definition attempt_result ::
  "(nat \<Rightarrow> 'st \<Rightarrow> (jsval + unit) option \<times> 'st) \<Rightarrow> 'st \<Rightarrow> nat \<Rightarrow> (jsval + unit) option" where
  "attempt_result conn st k = fst (conn k (attempt_state conn st k))"

text \<open>
  The schedule in the words of the specification: the first attempt connects at once,
  and attempt \<open>k > 0\<close> waits the \<open>k\<close>-th delay of the ladder and then reconnects.
\<close>

fun retry_schedule :: "nat \<Rightarrow> retry_action list" where
  "retry_schedule 0 = [Connect 0]"
| "retry_schedule (Suc k) =
     retry_schedule k @ [Sleep (TTS_WS_RETRY_DELAYS_MS ! k), Connect (Suc k)]"

section \<open>Observing the calls of a stream\<close>

text \<open>
  Read from the oldest call on: once a socket handler or the \<^verbatim>\<open>catch\<close> block has reported
  an error, no call of \<^verbatim>\<open>onError\<close> by the \<^verbatim>\<open>catch\<close> block follows.
\<close>

fun catch_first :: "callback list \<Rightarrow> bool" where
  "catch_first [] = True"
| "catch_first (c # cs) =
     (if is_catch_report c \<or> is_handler_report c then filter is_catch_report cs = []
      else catch_first cs)"

text \<open>
  What holds of a stream between two events: the promise was settled by exactly one
  call if the executor has returned and by none before; while the agent promise is
  pending, the executor awaits it; there is no agent socket before the speech request
  has returned; a handler has reported only if \<open>errorEmitted\<close> is set,
  and the \<^verbatim>\<open>catch\<close> block only if the executor has returned.
\<close>

definition agent_inv :: "agent_stream \<Rightarrow> bool" where
  "agent_inv s \<longleftrightarrow>
     settle_calls s = (if phase s = Finished then 1 else 0)
     \<and> ((done_promise s = Pending) = (phase s \<noteq> Finished))
     \<and> (agent_socket s = None \<or> resolved s \<or> phase s = AwaitAgent)
     \<and> (agent_socket s = None \<or> phase s \<noteq> AwaitStt)
     \<and> (errorEmitted s \<or> filter is_handler_report (calls s) = [])
     \<and> (phase s = Finished \<or> filter is_catch_report (calls s) = [])
     \<and> catch_first (calls s)"







section \<open>Scenarios\<close>

text \<open>
  What \<^verbatim>\<open>JSON.parse\<close> and \<^verbatim>\<open>atob\<close> return on the frames of the scenarios below; on
  every other string these two examples throw.
\<close>

definition example_json :: "string \<Rightarrow> jsval option" where
  "example_json =
     map_of
       [(''{\"type\":\"audio\",\"seq\":1,\"audio\":\"YQ==\"}'',
           Object [(''type'', String ''audio''), (''seq'', Number 1), (''audio'', String ''YQ=='')]),
        (''{\"type\":\"audio\",\"seq\":2,\"audio\":\"Yg==\"}'',
           Object [(''type'', String ''audio''), (''seq'', Number 2), (''audio'', String ''Yg=='')]),
        (''{\"type\":\"audio\",\"seq\":3,\"audio\":\"Yw==\"}'',
           Object [(''type'', String ''audio''), (''seq'', Number 3), (''audio'', String ''Yw=='')]),
        (''{\"type\":\"done\",\"last_seq\":2}'',
           Object [(''type'', String ''done''), (''last_seq'', Number 2)]),
        (''{\"type\":\"done\",\"last_seq\":5}'',
           Object [(''type'', String ''done''), (''last_seq'', Number 5)]),
        (''{\"type\":\"error\",\"error\":\"bad\",\"retryable\":false}'',
           Object [(''type'', String ''error''), (''error'', String ''bad''),
                   (''retryable'', Boolean False)]),
        (''{\"type\":\"start_ack\",\"session_id\":\"s1\"}'',
           Object [(''type'', String ''start_ack''), (''session_id'', String ''s1'')]),
        (''{\"type\":\"partial\",\"seq\":1,\"text\":\"me\"}'',
           Object [(''type'', String ''partial''), (''seq'', Number 1), (''text'', String ''me'')]),
        (''{\"type\":\"final\",\"text\":\"merhaba\",\"session_id\":\"s1\"}'',
           Object [(''type'', String ''final''), (''text'', String ''merhaba''),
                   (''session_id'', String ''s1'')]),
        (''{\"type\":\"final\",\"text\":\"  \"}'',
           Object [(''type'', String ''final''), (''text'', String ''  '')]),
        (''{\"type\":\"done\"}'', Object [(''type'', String ''done'')]),
        (''{\"type\":\"error\",\"error\":\"boom\"}'',
           Object [(''type'', String ''error''), (''error'', String ''boom'')]),
        (''{\"type\":\"agent_done\",\"final_reply\":\"ok\"}'',
           Object [(''type'', String ''agent_done''), (''final_reply'', String ''ok'')]),
        (''{}'', Object []),
        (''{\"savedAt\":1000}'', Object [(''savedAt'', Number 1000)]),
        (''null'', Null)]"

definition example_atob :: "string \<Rightarrow> string option" where
  "example_atob = map_of [(''YQ=='', ''a''), (''Yg=='', ''b''), (''Yw=='', ''c'')]"

definition example_request :: tts_request where
  "example_request = \<lparr>requestId = ''r1'', req_text = ''merhaba'', req_voice = ''v'',
                        req_accessibilityMode = False\<rparr>"

text \<open>
  The scenario of a redelivered chunk: chunks 1 and 2, chunk 2 again, then
  \<^verbatim>\<open>done{last_seq:2}\<close> and a close on a stream that is not stopped.
\<close>

definition scenario_duplicate :: "ws_event list" where
  "scenario_duplicate =
     [WsOpen,
      WsMessage ''{\"type\":\"audio\",\"seq\":1,\"audio\":\"YQ==\"}'',
      WsMessage ''{\"type\":\"audio\",\"seq\":2,\"audio\":\"Yg==\"}'',
      WsMessage ''{\"type\":\"audio\",\"seq\":2,\"audio\":\"Yg==\"}'',
      WsMessage ''{\"type\":\"done\",\"last_seq\":2}'',
      WsClose False]"

text \<open>
  The scenario of a sequence gap: chunks 1 to 3, then \<^verbatim>\<open>done{last_seq:5}\<close>.
\<close>

definition scenario_gap :: "ws_event list" where
  "scenario_gap =
     [WsOpen,
      WsMessage ''{\"type\":\"audio\",\"seq\":1,\"audio\":\"YQ==\"}'',
      WsMessage ''{\"type\":\"audio\",\"seq\":2,\"audio\":\"Yg==\"}'',
      WsMessage ''{\"type\":\"audio\",\"seq\":3,\"audio\":\"Yw==\"}'',
      WsMessage ''{\"type\":\"done\",\"last_seq\":5}'']"

text \<open>
  Two environments: in the first, attempt 0 meets the sequence gap and attempt 1 an error
  that the server marks as final; in the second, every attempt ends with a transport
  error.
\<close>

definition env_gap_then_final :: "nat \<Rightarrow> bool \<times> ws_event list" where
  "env_gap_then_final k =
     (if k = 0 then (False, scenario_gap @ [WsClose False])
      else (False, [WsOpen,
                    WsMessage ''{\"type\":\"error\",\"error\":\"bad\",\"retryable\":false}'',
                    WsClose False]))"

definition env_unreachable :: "nat \<Rightarrow> bool \<times> ws_event list" where
  "env_unreachable k = (False, [WsError, WsClose False])"

text \<open>
  Two STT sessions of a caller without a prior session id: the scenario of the
  specification, and the same one with a transcript of two spaces.
\<close>

definition example_stt_config :: stt_config where
  "example_stt_config =
     \<lparr>cfg_projectId = ''p1'', cfg_sessionId = None, cfg_language = None, cfg_mimeType = None\<rparr>"

definition scenario_merhaba :: "stt_event list" where
  "scenario_merhaba =
     [SttOpen,
      SttMessage ''{\"type\":\"start_ack\",\"session_id\":\"s1\"}'',
      SttMessage ''{\"type\":\"partial\",\"seq\":1,\"text\":\"me\"}'',
      SttMessage ''{\"type\":\"final\",\"text\":\"merhaba\",\"session_id\":\"s1\"}'',
      SttMessage ''{\"type\":\"done\"}'',
      SttClose]"

definition scenario_blank_final :: "stt_event list" where
  "scenario_blank_final =
     [SttOpen,
      SttMessage ''{\"type\":\"start_ack\",\"session_id\":\"s1\"}'',
      SttMessage ''{\"type\":\"final\",\"text\":\"  \"}'',
      SttMessage ''{\"type\":\"done\"}'',
      SttClose]"

text \<open>
  Resume states: one with a completed result for the first of three pending calls, one
  whose completed results name the same call twice, and one whose pending calls share a
  call id.
\<close>

definition example_resume :: PendingAgentResume where
  "example_resume =
     \<lparr>sessionId = ''s1'', projectId = ''p1'', model = ''m'', voice = ''v'',
      accessibilityMode = False,
      pendingToolCalls =
        [\<lparr>call_id = ''c1'', tool = ''interact'', args = Object []\<rparr>,
         \<lparr>call_id = ''c2'', tool = ''navigate'', args = Object [(''url'', String ''/about'')]\<rparr>,
         \<lparr>call_id = ''c3'', tool = ''scroll'', args = Object []\<rparr>],
      completedResults = [\<lparr>result_call_id = ''c1'', result = ''clicked''\<rparr>],
      savedAt = 1000\<rparr>"

definition resume_repeated_result :: PendingAgentResume where
  "resume_repeated_result =
     example_resume
       \<lparr>pendingToolCalls := [\<lparr>call_id = ''c1'', tool = ''navigate'', args = Object []\<rparr>],
        completedResults := [\<lparr>result_call_id = ''c1'', result = ''clicked''\<rparr>,
                             \<lparr>result_call_id = ''c1'', result = ''clicked again''\<rparr>]\<rparr>"

definition resume_repeated_call :: PendingAgentResume where
  "resume_repeated_call =
     example_resume
       \<lparr>pendingToolCalls := [\<lparr>call_id = ''c1'', tool = ''interact'', args = Object []\<rparr>,
                             \<lparr>call_id = ''c1'', tool = ''navigate'', args = Object []\<rparr>],
        completedResults := []\<rparr>"

text \<open>A storage that holds the string \<open>raw\<close> under the resume key and nothing else.\<close>

definition storage_with :: "string \<Rightarrow> local_storage" where
  "storage_with raw = Some (\<lambda>k. if k = RESUME_STORAGE_KEY then Some raw else None)"

text \<open>What is stored under the resume key, \<open>None\<close> without a storage or an entry.\<close>

definition stored_resume :: "local_storage \<Rightarrow> string option" where
  "stored_resume ls = (case ls of None \<Rightarrow> None | Some m \<Rightarrow> m RESUME_STORAGE_KEY)"






definition scenario_stt_failure :: "agent_event list" where
  "scenario_stt_failure = [SttFailure (new_Error (String ''Bad Gateway'')), Stop]"



section \<open>Verified properties\<close>

subsection \<open>Accepted audio chunks\<close>

lemma socket_close_keeps [simp]:
  "chunks (socket_close s) = chunks s" "highestSeqSeen (socket_close s) = highestSeqSeen s"
  by (simp_all add: socket_close_def)

lemma tts_send_ack_keeps [simp]:
  "chunks (tts_send_ack req s) = chunks s" "highestSeqSeen (tts_send_ack req s) = highestSeqSeen s"
  by (simp_all add: tts_send_ack_def)

lemma finalize_keeps [simp]:
  "chunks (finalize m s) = chunks s" "highestSeqSeen (finalize m s) = highestSeqSeen s"
  by (simp_all add: finalize_def Let_def split: option.splits)








subsection \<open>Payload parsers\<close>

text \<open>
  C9. \<^verbatim>\<open>parseTtsWsEventPayload\<close> and \<^verbatim>\<open>parseSttWsEventPayload\<close> are total functions that
  return a value in every case: \<^verbatim>\<open>null\<close> on a value that is not a string and on a string
  that \<^verbatim>\<open>JSON.parse\<close> rejects, and on a string that parses the value parsed.
\<close>

theorem ws_payload_parsers_total:
  "((\<forall>s. v \<noteq> String s) \<longrightarrow>
       parseTtsWsEventPayload json_parse v = Null \<and> parseSttWsEventPayload json_parse v = Null)
   \<and> (json_parse s = None \<longrightarrow>
       parseTtsWsEventPayload json_parse (String s) = Null
       \<and> parseSttWsEventPayload json_parse (String s) = Null)
   \<and> (json_parse s = Some payload \<longrightarrow>
       parseTtsWsEventPayload json_parse (String s) = payload
       \<and> parseSttWsEventPayload json_parse (String s) = payload)"
  by (cases v) simp_all

text \<open>The inputs of the unit tests: the number 123, the string \<^verbatim>\<open>{invalid\<close>, a frame.\<close>

theorem ws_payload_parsers_total_witness:
  "parseTtsWsEventPayload example_json (Number 123) = Null
   \<and> parseSttWsEventPayload example_json (Number 123) = Null
   \<and> parseTtsWsEventPayload example_json (String ''{invalid'') = Null
   \<and> parseSttWsEventPayload example_json (String ''{invalid'') = Null
   \<and> parseTtsWsEventPayload example_json (String ''{\"type\":\"done\",\"last_seq\":5}'')
       = Object [(''type'', String ''done''), (''last_seq'', Number 5)]
   \<and> parseSttWsEventPayload example_json (String ''{\"type\":\"partial\",\"seq\":1,\"text\":\"me\"}'')
       = Object [(''type'', String ''partial''), (''seq'', Number 1), (''text'', String ''me'')]"
proof -
  have none: "example_json ''{invalid'' = None"
    by code_simp
  have done5: "example_json ''{\"type\":\"done\",\"last_seq\":5}''
                 = Some (Object [(''type'', String ''done''), (''last_seq'', Number 5)])"
    by code_simp
  have partial1: "example_json ''{\"type\":\"partial\",\"seq\":1,\"text\":\"me\"}''
                 = Some (Object [(''type'', String ''partial''), (''seq'', Number 1),
                                 (''text'', String ''me'')])"
    by code_simp
  from ws_payload_parsers_total [of "Number 123" example_json "''{invalid''"] none
       ws_payload_parsers_total [of Null example_json "''{\"type\":\"done\",\"last_seq\":5}''"] done5
       ws_payload_parsers_total [of Null example_json
          "''{\"type\":\"partial\",\"seq\":1,\"text\":\"me\"}''"] partial1
  show ?thesis by simp
qed

subsection \<open>Fallback to SSE\<close>

text \<open>
  C5, as the source has it. \<^verbatim>\<open>shouldFallbackToSse(error)\<close> is false exactly when
  \<open>error\<close> is an object that has a property \<^verbatim>\<open>retryable\<close> whose value is falsy
  (\<^verbatim>\<open>false\<close>, but also \<^verbatim>\<open>undefined\<close>, \<^verbatim>\<open>null\<close>, \<^verbatim>\<open>0\<close> or the empty string): so it is false
  for \<^verbatim>\<open>retryable: false\<close>, and true for \<^verbatim>\<open>retryable: true\<close>, for an object without the
  property and for every value that is not an object.
\<close>

theorem shouldFallbackToSse_falsy_flag:
  "(shouldFallbackToSse e \<longleftrightarrow>
       \<not> (\<exists>fs r. e = Object fs \<and> map_of fs ''retryable'' = Some r \<and> \<not> truthy r))
   \<and> (map_of fs ''retryable'' = Some (Boolean False) \<longrightarrow> \<not> shouldFallbackToSse (Object fs))
   \<and> (map_of fs ''retryable'' = Some (Boolean True) \<longrightarrow> shouldFallbackToSse (Object fs))
   \<and> (map_of fs ''retryable'' = None \<longrightarrow> shouldFallbackToSse (Object fs))
   \<and> ((\<forall>gs. e \<noteq> Object gs) \<longrightarrow> shouldFallbackToSse e)"
  by (cases e) (auto split: option.splits)

text \<open>The two errors of the unit test, an error without the flag, and a string.\<close>

theorem shouldFallbackToSse_falsy_flag_witness:
  "shouldFallbackToSse (Object [(''message'', String ''ws failed''), (''retryable'', Boolean True)])
   \<and> \<not> shouldFallbackToSse
         (Object [(''message'', String ''bad payload''), (''retryable'', Boolean False)])
   \<and> shouldFallbackToSse (Object [(''message'', String ''no flag'')])
   \<and> shouldFallbackToSse (String ''ws failed'')"
  using shouldFallbackToSse_falsy_flag
          [of Null "[(''message'', String ''ws failed''), (''retryable'', Boolean True)]"]
        shouldFallbackToSse_falsy_flag
          [of Null "[(''message'', String ''bad payload''), (''retryable'', Boolean False)]"]
        shouldFallbackToSse_falsy_flag
          [of "String ''ws failed''" "[(''message'', String ''no flag'')]"]
  by simp

text \<open>
  The claim as written fails on an error whose \<^verbatim>\<open>retryable\<close> property is present and
  \<^verbatim>\<open>undefined\<close>: \<^verbatim>\<open>error.retryable !== false\<close> holds, and the function returns false.
\<close>

theorem shouldFallbackToSse_counterexample:
  "js_get (Object [(''message'', String ''ws failed''), (''retryable'', Undefined)]) ''retryable''
     \<noteq> Boolean False
   \<and> \<not> shouldFallbackToSse (Object [(''message'', String ''ws failed''), (''retryable'', Undefined)])"
  by simp

subsection \<open>Playback generation\<close>

lemma stop_playback_funpow:
  "audioPlaybackGeneration ((stopActiveAudioPlayback ^^ n) p) = audioPlaybackGeneration p + int n"
  by (induction n) (simp_all add: stopActiveAudioPlayback_def)

text \<open>
  C7. One call of \<^verbatim>\<open>stopActiveAudioPlayback()\<close> adds exactly 1 to the generation, two
  calls add exactly 2, and a task that took its snapshot at a state \<open>p\<close>, any number
  \<open>n\<close> of stops before the two calls, is stale after them.
\<close>

theorem stop_playback_bumps_generation:
  "getAudioPlaybackGeneration (stopActiveAudioPlayback p) = getAudioPlaybackGeneration p + 1
   \<and> getAudioPlaybackGeneration (stopActiveAudioPlayback (stopActiveAudioPlayback p))
       = getAudioPlaybackGeneration p + 2
   \<and> wasPlaybackStoppedAfter
       (stopActiveAudioPlayback (stopActiveAudioPlayback ((stopActiveAudioPlayback ^^ n) p)))
       (getAudioPlaybackGeneration p)"
proof -
  have "audioPlaybackGeneration
          (stopActiveAudioPlayback (stopActiveAudioPlayback ((stopActiveAudioPlayback ^^ n) p)))
        = audioPlaybackGeneration p + int n + 2"
    using stop_playback_funpow [of n p] by (simp add: stopActiveAudioPlayback_def)
  then show ?thesis
    by (simp add: getAudioPlaybackGeneration_def wasPlaybackStoppedAfter_def
        stopActiveAudioPlayback_def)
qed

theorem stop_playback_bumps_generation_witness:
  "getAudioPlaybackGeneration
     (stopActiveAudioPlayback
        (stopActiveAudioPlayback
           \<lparr>audioPlaybackGeneration = 7,
            activeAudioElements = [(0, \<lparr>paused = False, src = Some ''blob:1'', stop_events = 0\<rparr>)]\<rparr>))
     = 9
   \<and> wasPlaybackStoppedAfter
       (stopActiveAudioPlayback
          (stopActiveAudioPlayback
             \<lparr>audioPlaybackGeneration = 7,
              activeAudioElements = [(0, \<lparr>paused = False, src = Some ''blob:1'', stop_events = 0\<rparr>)]\<rparr>))
       7"
  using stop_playback_bumps_generation
          [of "\<lparr>audioPlaybackGeneration = 7,
               activeAudioElements = [(0, \<lparr>paused = False, src = Some ''blob:1'', stop_events = 0\<rparr>)]\<rparr>" 0]
  by (simp add: getAudioPlaybackGeneration_def)

subsection \<open>Completion of a TTS connection attempt\<close>

lemma js_get_string_object: "js_get p k = String x \<Longrightarrow> truthy p"
  by (cases p) simp_all

lemma tts_closing_step:
  assumes "handlers s" "readyState s = CLOSING" "\<forall>b. ev \<noteq> WsClose b"
  shows "handlers (tts_step jp atob req ev s) \<and> readyState (tts_step jp atob req ev s) = CLOSING
         \<and> done_flag (tts_step jp atob req ev s) = done_flag s
         \<and> (finalError s \<noteq> None \<longrightarrow> finalError (tts_step jp atob req ev s) = finalError s)"
  using assms by (cases ev) (auto simp add: tts_step_def tts_onerror_def)

lemma tts_closing_run:
  assumes "handlers s" "readyState s = CLOSING" "\<forall>ev \<in> set evs. \<forall>b. ev \<noteq> WsClose b"
  shows "handlers (tts_run jp atob req evs s) \<and> readyState (tts_run jp atob req evs s) = CLOSING
         \<and> done_flag (tts_run jp atob req evs s) = done_flag s
         \<and> (finalError s \<noteq> None \<longrightarrow> finalError (tts_run jp atob req evs s) = finalError s)"
  using assms
proof (induction evs arbitrary: s)
  case Nil
  then show ?case by simp
next
  case (Cons ev evs)
  from Cons.prems have step: "handlers (tts_step jp atob req ev s)"
      "readyState (tts_step jp atob req ev s) = CLOSING"
      "done_flag (tts_step jp atob req ev s) = done_flag s"
      "finalError s \<noteq> None \<longrightarrow> finalError (tts_step jp atob req ev s) = finalError s"
    using tts_closing_step [of s ev jp atob req] by simp_all
  from Cons.prems have rest: "\<forall>ev \<in> set evs. \<forall>b. ev \<noteq> WsClose b" by simp
  from Cons.IH [OF step(1) step(2) rest] step(3) step(4) show ?case by auto
qed

lemma tts_run_append:
  "tts_run jp atob req (xs @ ys) s = tts_run jp atob req ys (tts_run jp atob req xs s)"
  by (induction xs arbitrary: s) simp_all

lemma tts_done_message:
  assumes "handlers s" "readyState s = OPEN"
    and "js_get (parseTtsWsEventPayload jp (String d)) ''type'' = String ''done''"
  shows "handlers (tts_step jp atob req (WsMessage d) s)
     \<and> readyState (tts_step jp atob req (WsMessage d) s) = CLOSING
     \<and> (if (case js_get (parseTtsWsEventPayload jp (String d)) ''last_seq'' of
               Number n \<Rightarrow> n > highestSeqSeen s | _ \<Rightarrow> False)
         then \<not> done_flag (tts_step jp atob req (WsMessage d) s)
              \<and> finalError (tts_step jp atob req (WsMessage d) s)
                  = Some (buildError (String ''tts_ws_sequence_gap'') True)
         else done_flag (tts_step jp atob req (WsMessage d) s))"
  using assms js_get_string_object [OF assms(3)]
  by (simp add: tts_step_def tts_onmessage_def Let_def socket_close_def split: jsval.splits)

lemma tts_close_outcome:
  assumes "handlers s"
  shows "outcome (tts_step jp atob req (WsClose halted) s)
     = Some (if halted then Inl (buildError (String ''stream_stopped'') False)
             else if done_flag s then Inr ()
             else Inl (case finalError s of
                         Some e \<Rightarrow> e
                       | None \<Rightarrow> buildError (String ''tts_ws_closed_before_done'') True))"
  using assms by (simp add: tts_step_def tts_onclose_def finalize_def Let_def)

text \<open>
  C2, as the source has it. A \<^verbatim>\<open>done\<close> message on an open socket decides the attempt
  once the socket closes, whatever comes in between (\<open>evs\<close>: further events that are no
  close): if \<^verbatim>\<open>isStopped()\<close> holds at the close, the attempt is rejected with the
  \<^verbatim>\<open>stream_stopped\<close> error, which is not retryable; otherwise it is rejected with the
  retryable \<^verbatim>\<open>tts_ws_sequence_gap\<close> error when the reported \<^verbatim>\<open>last_seq\<close> is a number
  greater than \<open>highestSeqSeen\<close>, and resolved when \<^verbatim>\<open>last_seq\<close> is at most
  \<open>highestSeqSeen\<close> or is no number.
\<close>

theorem tts_done_decides_attempt:
  assumes "handlers s" and "readyState s = OPEN"
    and "js_get (parseTtsWsEventPayload jp (String d)) ''type'' = String ''done''"
    and "\<forall>ev \<in> set evs. \<forall>b. ev \<noteq> WsClose b"
  shows "outcome (tts_run jp atob req (WsMessage d # evs @ [WsClose halted]) s)
           = Some (if halted then Inl (buildError (String ''stream_stopped'') False)
                   else if (case js_get (parseTtsWsEventPayload jp (String d)) ''last_seq'' of
                              Number n \<Rightarrow> n > highestSeqSeen s | _ \<Rightarrow> False)
                   then Inl (buildError (String ''tts_ws_sequence_gap'') True)
                   else Inr ())
         \<and> shouldFallbackToSse (buildError (String ''tts_ws_sequence_gap'') True)
         \<and> \<not> shouldFallbackToSse (buildError (String ''stream_stopped'') False)"
proof -
  let ?s1 = "tts_step jp atob req (WsMessage d) s"
  let ?s2 = "tts_run jp atob req evs ?s1"
  let ?gap = "(case js_get (parseTtsWsEventPayload jp (String d)) ''last_seq'' of
                 Number n \<Rightarrow> n > highestSeqSeen s | _ \<Rightarrow> False)"
  from tts_done_message [OF assms(1,2,3), of atob req]
  have s1: "handlers ?s1" "readyState ?s1 = CLOSING"
    and gap: "?gap \<Longrightarrow> \<not> done_flag ?s1
                \<and> finalError ?s1 = Some (buildError (String ''tts_ws_sequence_gap'') True)"
    and nogap: "\<not> ?gap \<Longrightarrow> done_flag ?s1"
    by (simp_all split: if_splits)
  from tts_closing_run [OF s1 assms(4), of jp atob req]
  have s2: "handlers ?s2" "done_flag ?s2 = done_flag ?s1"
      "finalError ?s1 \<noteq> None \<longrightarrow> finalError ?s2 = finalError ?s1"
    by simp_all
  have run: "tts_run jp atob req (WsMessage d # evs @ [WsClose halted]) s
               = tts_step jp atob req (WsClose halted) ?s2"
    by (simp add: tts_run_append)
  have "outcome (tts_step jp atob req (WsClose halted) ?s2)
          = Some (if halted then Inl (buildError (String ''stream_stopped'') False)
                  else if ?gap then Inl (buildError (String ''tts_ws_sequence_gap'') True)
                  else Inr ())"
  proof (cases ?gap)
    case True
    with gap s2 have "\<not> done_flag ?s2"
        "finalError ?s2 = Some (buildError (String ''tts_ws_sequence_gap'') True)"
      by simp_all
    with True show ?thesis by (simp add: tts_close_outcome [OF s2(1)])
  next
    case False
    with nogap s2 have "done_flag ?s2" by simp
    with False show ?thesis by (simp add: tts_close_outcome [OF s2(1)])
  qed
  with run show ?thesis by (simp add: buildError_def)
qed

text \<open>
  The gap scenario: chunks 1 to 3 were delivered when \<^verbatim>\<open>done{last_seq:5}\<close> comes; a
  transport error follows, then the close. Without a stop the attempt is rejected with
  the retryable gap error; the scenario of the duplicate, which ends with
  \<^verbatim>\<open>done{last_seq:2}\<close> after chunk 2, resolves.
\<close>

theorem tts_done_decides_attempt_witness:
  "outcome (tts_run example_json example_atob example_request
              (scenario_gap @ [WsError, WsClose False]) (tts_connect tts_initial))
     = Some (Inl (buildError (String ''tts_ws_sequence_gap'') True))
   \<and> outcome (tts_run example_json example_atob example_request
              scenario_duplicate (tts_connect tts_initial))
     = Some (Inr ())"
proof -
  let ?run = "tts_run example_json example_atob example_request"
  let ?s0 = "tts_connect tts_initial"
  let ?s3 = "?run (take 4 scenario_gap) ?s0"
  let ?s2 = "?run (take 4 scenario_duplicate) ?s0"
  let ?d5 = "''{\"type\":\"done\",\"last_seq\":5}''"
  let ?d2 = "''{\"type\":\"done\",\"last_seq\":2}''"
  have h3: "handlers ?s3" "readyState ?s3 = OPEN" "highestSeqSeen ?s3 = 3"
    by code_simp+
  have h2: "handlers ?s2" "readyState ?s2 = OPEN" "highestSeqSeen ?s2 = 2"
    by code_simp+
  have p5: "js_get (parseTtsWsEventPayload example_json (String ?d5)) ''type'' = String ''done''"
      "js_get (parseTtsWsEventPayload example_json (String ?d5)) ''last_seq'' = Number 5"
    by code_simp+
  have p2: "js_get (parseTtsWsEventPayload example_json (String ?d2)) ''type'' = String ''done''"
      "js_get (parseTtsWsEventPayload example_json (String ?d2)) ''last_seq'' = Number 2"
    by code_simp+
  have e5: "?run (scenario_gap @ [WsError, WsClose False]) ?s0
              = ?run (WsMessage ?d5 # [WsError] @ [WsClose False]) ?s3"
    by code_simp
  have e2: "?run scenario_duplicate ?s0 = ?run (WsMessage ?d2 # [] @ [WsClose False]) ?s2"
    by code_simp
  have "outcome (?run (WsMessage ?d5 # [WsError] @ [WsClose False]) ?s3)
          = Some (Inl (buildError (String ''tts_ws_sequence_gap'') True))"
    using tts_done_decides_attempt
            [of ?s3 example_json ?d5 "[WsError]" example_atob example_request False] h3 p5
    by simp
  moreover have "outcome (?run (WsMessage ?d2 # [] @ [WsClose False]) ?s2) = Some (Inr ())"
    using tts_done_decides_attempt
            [of ?s2 example_json ?d2 "[]" example_atob example_request False] h2 p2
    by simp
  ultimately show ?thesis
    by (simp only: e5 e2)
qed

text \<open>
  The claim as written fails when the caller has stopped the stream by the time the
  socket closes: the same two scenarios, closed with \<^verbatim>\<open>isStopped()\<close> true, are both
  rejected with \<^verbatim>\<open>stream_stopped\<close>, neither with the gap error nor resolved.
\<close>

theorem tts_done_stopped_counterexample:
  "outcome (tts_run example_json example_atob example_request
              (scenario_gap @ [WsClose True]) (tts_connect tts_initial))
     = Some (Inl (buildError (String ''stream_stopped'') False))
   \<and> outcome (tts_run example_json example_atob example_request
              (scenario_gap @ [WsClose True]) (tts_connect tts_initial))
     \<noteq> Some (Inl (buildError (String ''tts_ws_sequence_gap'') True))
   \<and> \<not> shouldFallbackToSse (buildError (String ''stream_stopped'') False)
   \<and> outcome (tts_run example_json example_atob example_request
              (butlast scenario_duplicate @ [WsClose True]) (tts_connect tts_initial))
     = Some (Inl (buildError (String ''stream_stopped'') False))"
  by code_simp

subsection \<open>The retry ladder\<close>

declare tts_attempts.simps [simp del]

text \<open>An attempt ends the loop when it hangs, succeeds, fails for good or is the last one.\<close>

lemma tts_attempts_step:
  assumes "a \<le> length TTS_WS_RETRY_DELAYS_MS"
    and "(if a > 0 then log @ [Sleep (TTS_WS_RETRY_DELAYS_MS ! (a - 1))] else log) @ [Connect a] = log2"
  shows "tts_attempts conn a st log
           = (case fst (conn a st) of
                None \<Rightarrow> (log2, None)
              | Some (Inr u) \<Rightarrow> (log2, Some (Inr (snd (conn a st))))
              | Some (Inl e) \<Rightarrow>
                  if \<not> shouldFallbackToSse e \<or> a = length TTS_WS_RETRY_DELAYS_MS
                  then (log2, Some (Inl e))
                  else tts_attempts conn (a + 1) (snd (conn a st)) log2)"
  unfolding assms(2) [symmetric]
  by (subst tts_attempts.simps) (simp add: Let_def assms(1) split: option.splits sum.splits)

lemma tts_attempts_from:
  assumes "a \<le> k" and "k \<le> length TTS_WS_RETRY_DELAYS_MS"
    and "\<forall>j. a \<le> j \<and> j < k \<longrightarrow>
           (\<exists>e. attempt_result conn st j = Some (Inl e) \<and> shouldFallbackToSse e)"
    and "\<forall>e. attempt_result conn st k = Some (Inl e) \<longrightarrow>
           \<not> shouldFallbackToSse e \<or> k = length TTS_WS_RETRY_DELAYS_MS"
    and "(if a > 0 then log @ [Sleep (TTS_WS_RETRY_DELAYS_MS ! (a - 1))] else log) @ [Connect a]
           = retry_schedule a"
  shows "tts_attempts conn a (attempt_state conn st a) log
           = (retry_schedule k,
              case attempt_result conn st k of
                None \<Rightarrow> None
              | Some (Inr u) \<Rightarrow> Some (Inr (attempt_state conn st (Suc k)))
              | Some (Inl e) \<Rightarrow> Some (Inl e))"
  using assms
proof (induction "k - a" arbitrary: a log)
  case 0
  then have ak: "a = k" by simp
  from "0.prems"(2,4) show ?case
    unfolding ak
    by (subst tts_attempts_step [OF "0.prems"(2) "0.prems"(5) [unfolded ak]])
       (auto simp add: attempt_result_def split: option.splits sum.splits)
next
  case (Suc d)
  then have lt: "a < k" by simp
  with Suc.prems(3) obtain e where e: "attempt_result conn st a = Some (Inl e)"
      "shouldFallbackToSse e"
    by blast
  from Suc.hyps(2) have d: "d = k - (a + 1)" by simp
  from Suc.prems(3) have retry: "\<forall>j. a + 1 \<le> j \<and> j < k \<longrightarrow>
           (\<exists>e. attempt_result conn st j = Some (Inl e) \<and> shouldFallbackToSse e)"
    by simp
  from lt have le: "a + 1 \<le> k" by simp
  have log': "(if a + 1 > 0 then retry_schedule a @ [Sleep (TTS_WS_RETRY_DELAYS_MS ! (a + 1 - 1))]
               else retry_schedule a) @ [Connect (a + 1)] = retry_schedule (a + 1)"
    by simp
  have ih: "tts_attempts conn (a + 1) (attempt_state conn st (a + 1)) (retry_schedule a)
           = (retry_schedule k,
              case attempt_result conn st k of
                None \<Rightarrow> None
              | Some (Inr u) \<Rightarrow> Some (Inr (attempt_state conn st (Suc k)))
              | Some (Inl e) \<Rightarrow> Some (Inl e))"
    by (rule Suc.hyps(1) [OF d le Suc.prems(2) retry Suc.prems(4) log'])
  from lt Suc.prems(2) have a_ok: "a \<le> length TTS_WS_RETRY_DELAYS_MS"
      "a \<noteq> length TTS_WS_RETRY_DELAYS_MS"
    by simp_all
  from e have conn_a: "fst (conn a (attempt_state conn st a)) = Some (Inl e)"
    by (simp add: attempt_result_def)
  have next_state: "snd (conn a (attempt_state conn st a)) = attempt_state conn st (a + 1)"
    by simp
  show ?case
    by (subst tts_attempts_step [OF a_ok(1) Suc.prems(5)])
       (simp only: conn_a option.case sum.case e(2) a_ok(2) not_True_eq_False simp_thms if_False
          next_state ih)
qed

lemma tts_attempts_run:
  assumes "k \<le> length TTS_WS_RETRY_DELAYS_MS"
    and "\<forall>j<k. \<exists>e. attempt_result conn st j = Some (Inl e) \<and> shouldFallbackToSse e"
    and "\<forall>e. attempt_result conn st k = Some (Inl e) \<longrightarrow>
           \<not> shouldFallbackToSse e \<or> k = length TTS_WS_RETRY_DELAYS_MS"
  shows "tts_attempts conn 0 st []
           = (retry_schedule k,
              case attempt_result conn st k of
                None \<Rightarrow> None
              | Some (Inr u) \<Rightarrow> Some (Inr (attempt_state conn st (Suc k)))
              | Some (Inl e) \<Rightarrow> Some (Inl e))"
  using tts_attempts_from [of 0 k conn st "[]"] assms by simp

lemma tts_attempts_schedule:
  "\<exists>k \<le> length TTS_WS_RETRY_DELAYS_MS. fst (tts_attempts conn 0 st []) = retry_schedule k"
proof -
  let ?n = "length TTS_WS_RETRY_DELAYS_MS"
  let ?ends = "\<lambda>k. k = ?n \<or>
     \<not> (\<exists>e. attempt_result conn st k = Some (Inl e) \<and> shouldFallbackToSse e)"
  define k where "k = (LEAST j. ?ends j)"
  have "?ends ?n" by simp
  then have ends: "?ends k" and least: "\<And>j. j < k \<Longrightarrow> \<not> ?ends j" and le: "k \<le> ?n"
    unfolding k_def by (rule LeastI, auto dest: not_less_Least intro: Least_le)
  from least have retry:
    "\<forall>j<k. \<exists>e. attempt_result conn st j = Some (Inl e) \<and> shouldFallbackToSse e"
    by blast
  from ends have last: "\<forall>e. attempt_result conn st k = Some (Inl e) \<longrightarrow>
           \<not> shouldFallbackToSse e \<or> k = ?n"
    by blast
  from tts_attempts_run [OF le retry last] have "fst (tts_attempts conn 0 st []) = retry_schedule k"
    by simp
  with le show ?thesis by blast
qed

text \<open>
  C4. The ladder is \<open>[250, 750, 1500]\<close>. The calls of \<^verbatim>\<open>collectTtsViaWebSocket\<close> follow the
  schedule up to some attempt \<open>k \<le> 3\<close>: attempt 0 connects at once and attempt \<open>j > 0\<close>
  sleeps the \<open>j\<close>-th delay first, so the full schedule is connect, 250, connect, 750,
  connect, 1500, connect. When the attempts before \<open>k\<close> fail with retryable errors and
  attempt \<open>k\<close> fails with an error that is not retryable, or \<open>k\<close> is 3 (the initial
  attempt plus three retries), that error is thrown after the schedule up to \<open>k\<close>, with
  no further attempt; when attempt \<open>k\<close> succeeds, the collection is returned.
\<close>

theorem tts_retry_ladder:
  "TTS_WS_RETRY_DELAYS_MS = [250, 750, 1500]
   \<and> retry_schedule 3
       = [Connect 0, Sleep 250, Connect 1, Sleep 750, Connect 2, Sleep 1500, Connect 3]
   \<and> (\<exists>n \<le> 3. fst (collectTtsViaWebSocket jp atob req env) = retry_schedule n)
   \<and> (k \<le> 3
        \<and> (\<forall>j<k. \<exists>e. attempt_result (\<lambda>i. connectOnce jp atob req (env i)) tts_initial j
                         = Some (Inl e) \<and> shouldFallbackToSse e)
        \<and> attempt_result (\<lambda>i. connectOnce jp atob req (env i)) tts_initial k = Some (Inl err)
        \<and> (\<not> shouldFallbackToSse err \<or> k = 3)
      \<longrightarrow> collectTtsViaWebSocket jp atob req env = (retry_schedule k, Some (Inl err)))
   \<and> (k \<le> 3
        \<and> (\<forall>j<k. \<exists>e. attempt_result (\<lambda>i. connectOnce jp atob req (env i)) tts_initial j
                         = Some (Inl e) \<and> shouldFallbackToSse e)
        \<and> attempt_result (\<lambda>i. connectOnce jp atob req (env i)) tts_initial k = Some (Inr ())
      \<longrightarrow> collectTtsViaWebSocket jp atob req env
            = (retry_schedule k,
               Some (Inr (attempt_state (\<lambda>i. connectOnce jp atob req (env i)) tts_initial (Suc k)))))"
proof -
  let ?conn = "\<lambda>i. connectOnce jp atob req (env i)"
  have len: "length TTS_WS_RETRY_DELAYS_MS = 3"
    by (simp add: TTS_WS_RETRY_DELAYS_MS_def)
  have sched: "retry_schedule 3
       = [Connect 0, Sleep 250, Connect 1, Sleep 750, Connect 2, Sleep 1500, Connect 3]"
    by (simp add: numeral_3_eq_3 TTS_WS_RETRY_DELAYS_MS_def)
  have ex: "\<exists>n \<le> 3. fst (collectTtsViaWebSocket jp atob req env) = retry_schedule n"
    using tts_attempts_schedule [of ?conn tts_initial]
    by (simp add: collectTtsViaWebSocket_def len)
  have failure: "collectTtsViaWebSocket jp atob req env = (retry_schedule k, Some (Inl err))"
    if "k \<le> 3"
      and "\<forall>j<k. \<exists>e. attempt_result ?conn tts_initial j = Some (Inl e) \<and> shouldFallbackToSse e"
      and "attempt_result ?conn tts_initial k = Some (Inl err)"
      and "\<not> shouldFallbackToSse err \<or> k = 3"
    using tts_attempts_run [of k ?conn tts_initial] that
    by (simp add: collectTtsViaWebSocket_def len)
  have success: "collectTtsViaWebSocket jp atob req env
            = (retry_schedule k, Some (Inr (attempt_state ?conn tts_initial (Suc k))))"
    if "k \<le> 3"
      and "\<forall>j<k. \<exists>e. attempt_result ?conn tts_initial j = Some (Inl e) \<and> shouldFallbackToSse e"
      and "attempt_result ?conn tts_initial k = Some (Inr ())"
    using tts_attempts_run [of k ?conn tts_initial] that
    by (simp add: collectTtsViaWebSocket_def len)
  from sched ex failure success show ?thesis
    by (simp add: TTS_WS_RETRY_DELAYS_MS_def)
qed


text \<open>
  After the gap of attempt 0 the loop sleeps 250 ms and reconnects, resuming after
  chunk 3; the final error of attempt 1 is thrown at once. Where every attempt ends with
  a transport error, the whole ladder is used and the fourth error is thrown.
\<close>

theorem tts_retry_ladder_witness:
  "collectTtsViaWebSocket example_json example_atob example_request env_gap_then_final
     = ([Connect 0, Sleep 250, Connect 1],
        Some (Inl (buildError (String ''bad'') False)))
   \<and> collectTtsViaWebSocket example_json example_atob example_request env_unreachable
     = ([Connect 0, Sleep 250, Connect 1, Sleep 750, Connect 2, Sleep 1500, Connect 3],
        Some (Inl (buildError (String ''tts_ws_transport_error'') True)))
   \<and> js_get (hd (sent (attempt_state
          (\<lambda>i. connectOnce example_json example_atob example_request (env_gap_then_final i))
          tts_initial 2))) ''last_seq'' = Number 3"
proof -
  let ?gap = "\<lambda>i. connectOnce example_json example_atob example_request (env_gap_then_final i)"
  let ?down = "\<lambda>i. connectOnce example_json example_atob example_request (env_unreachable i)"
  have g0: "attempt_result ?gap tts_initial 0
              = Some (Inl (buildError (String ''tts_ws_sequence_gap'') True))"
    by code_simp
  have g1: "attempt_result ?gap tts_initial 1 = Some (Inl (buildError (String ''bad'') False))"
    by code_simp
  have retry_gap: "shouldFallbackToSse (buildError (String ''tts_ws_sequence_gap'') True)"
      "\<not> shouldFallbackToSse (buildError (String ''bad'') False)"
    by code_simp+
  have d: "attempt_result ?down tts_initial 0
             = Some (Inl (buildError (String ''tts_ws_transport_error'') True))"
      "attempt_result ?down tts_initial 1
             = Some (Inl (buildError (String ''tts_ws_transport_error'') True))"
      "attempt_result ?down tts_initial 2
             = Some (Inl (buildError (String ''tts_ws_transport_error'') True))"
      "attempt_result ?down tts_initial 3
             = Some (Inl (buildError (String ''tts_ws_transport_error'') True))"
    by code_simp+
  have retry_down: "shouldFallbackToSse (buildError (String ''tts_ws_transport_error'') True)"
    by code_simp
  have all_gap: "\<forall>j<1. \<exists>e. attempt_result ?gap tts_initial j = Some (Inl e) \<and> shouldFallbackToSse e"
    using g0 retry_gap(1) by simp
  have all_down: "\<forall>j<3. \<exists>e. attempt_result ?down tts_initial j = Some (Inl e) \<and> shouldFallbackToSse e"
  proof (intro allI impI)
    fix j :: nat
    assume "j < 3"
    then consider "j = 0" | "j = 1" | "j = 2" by linarith
    then show "\<exists>e. attempt_result ?down tts_initial j = Some (Inl e) \<and> shouldFallbackToSse e"
      using d retry_down by cases simp_all
  qed
  have s1: "retry_schedule 1 = [Connect 0, Sleep 250, Connect 1]"
    by (simp add: TTS_WS_RETRY_DELAYS_MS_def)
  from tts_retry_ladder
         [of example_json example_atob example_request env_gap_then_final 1
             "buildError (String ''bad'') False"]
       all_gap g1 retry_gap(2) s1
  have first: "collectTtsViaWebSocket example_json example_atob example_request env_gap_then_final
     = ([Connect 0, Sleep 250, Connect 1], Some (Inl (buildError (String ''bad'') False)))"
    by simp
  from tts_retry_ladder
         [of example_json example_atob example_request env_unreachable 3
             "buildError (String ''tts_ws_transport_error'') True"]
       all_down d(4)
  have second: "collectTtsViaWebSocket example_json example_atob example_request env_unreachable
     = ([Connect 0, Sleep 250, Connect 1, Sleep 750, Connect 2, Sleep 1500, Connect 3],
        Some (Inl (buildError (String ''tts_ws_transport_error'') True)))"
    by simp
  have resume: "js_get (hd (sent (attempt_state ?gap tts_initial 2))) ''last_seq'' = Number 3"
    by code_simp
  from first second resume show ?thesis by simp
qed

subsection \<open>Completion of an STT session\<close>

text \<open>
  On a session that is not settled and has a session id and a final text of white space
  only, \<^verbatim>\<open>onclose\<close> changes nothing.
\<close>

lemma stt_onclose_blank_transcript:
  "\<not> settled s \<Longrightarrow> finalText s \<noteq> [] \<Longrightarrow> trim (finalText s) = []
   \<Longrightarrow> finalSessionId s \<noteq> [] \<Longrightarrow> stt_onclose s = s"
  by (simp add: stt_onclose_def resolveDoneIfPossible_def)

text \<open>
  C3 at a transcript of white space. The scenario of the specification resolves with
  the trimmed text and the session id. With the final text \<^verbatim>\<open>"  "\<close> the socket closes
  before a non-empty trimmed transcript is there, and the session is not rejected:
  \<^verbatim>\<open>onclose\<close> tests the untrimmed \<^verbatim>\<open>finalText\<close>, takes the branch of
  \<^verbatim>\<open>resolveDoneIfPossible\<close>, which tests the trimmed one and returns, and the promise
  stays pending on a closed socket.
\<close>

theorem stt_blank_final_never_settles:
  "donePromise (stt_run example_json example_stt_config scenario_merhaba
                  (startSttWebSocketStream example_stt_config))
     = Fulfilled (''merhaba'', ''s1'')
   \<and> donePromise (stt_run example_json example_stt_config scenario_blank_final
                  (startSttWebSocketStream example_stt_config))
     = Pending
   \<and> \<not> settled (stt_run example_json example_stt_config scenario_blank_final
                  (startSttWebSocketStream example_stt_config))
   \<and> stt_readyState (stt_run example_json example_stt_config scenario_blank_final
                  (startSttWebSocketStream example_stt_config))
     = CLOSED"
  by code_simp

subsection \<open>Results sent with a resume\<close>

lemma resume_results_prefix:
  "take (length allResults) (resume_results h ctx tcs allResults) = allResults"
proof (induction tcs arbitrary: allResults)
  case Nil
  show ?case by simp
next
  case (Cons tc tcs)
  have grow: "take (length allResults) (resume_results h ctx tcs (allResults @ [r])) = allResults"
    for r
  proof -
    have "take (length allResults) (resume_results h ctx tcs (allResults @ [r]))
            = take (length allResults)
                (take (length (allResults @ [r])) (resume_results h ctx tcs (allResults @ [r])))"
      by (simp add: min_def)
    also have "\<dots> = take (length allResults) (allResults @ [r])"
      by (simp only: Cons.IH)
    finally show ?thesis by simp
  qed
  show ?case using Cons.IH [of allResults] grow by simp
qed

lemma filter_key_distinct:
  "distinct (map f xs) \<Longrightarrow> \<exists>x \<in> set xs. f x = i \<Longrightarrow> length (filter (\<lambda>x. f x = i) xs) = 1"
proof (induction xs)
  case Nil
  then show ?case by simp
next
  case (Cons x xs)
  show ?case
  proof (cases "f x = i")
    case True
    from Cons.prems(1) have "f x \<notin> f ` set xs" by simp
    with True have "\<forall>y \<in> set xs. f y \<noteq> i" by (metis imageI)
    then have "filter (\<lambda>x. f x = i) xs = []" by (simp add: filter_empty_conv)
    with True show ?thesis by simp
  next
    case False
    with Cons show ?thesis by simp
  qed
qed

lemma resume_results_count:
  "length (filter (\<lambda>r. result_call_id r = i) (resume_results h ctx tcs allResults))
     = (if \<exists>r \<in> set allResults. result_call_id r = i
        then length (filter (\<lambda>r. result_call_id r = i) allResults)
        else if i \<in> call_id ` set tcs then 1 else 0)"
proof (induction tcs arbitrary: allResults)
  case Nil
  show ?case by (auto simp add: filter_empty_conv)
next
  case (Cons tc tcs)
  show ?case
  proof (cases "\<exists>r \<in> set allResults. result_call_id r = call_id tc")
    case True
    then have "resume_results h ctx (tc # tcs) allResults = resume_results h ctx tcs allResults"
      by simp
    moreover from True have "i = call_id tc \<Longrightarrow> \<exists>r \<in> set allResults. result_call_id r = i"
      by simp
    ultimately show ?thesis using Cons.IH [of allResults] by auto
  next
    case False
    then obtain x where run: "resume_results h ctx (tc # tcs) allResults
        = resume_results h ctx tcs (allResults @ [\<lparr>result_call_id = call_id tc, result = x\<rparr>])"
      by (cases "tool tc = ''navigate''") simp_all
    let ?new = "\<lparr>result_call_id = call_id tc, result = x\<rparr>"
    note ih = Cons.IH [of "allResults @ [?new]"]
    show ?thesis
    proof (cases "i = call_id tc")
      case True
      with False have "filter (\<lambda>r. result_call_id r = i) allResults = []"
        by (simp add: filter_empty_conv)
      with True False ih show ?thesis
        unfolding run by simp
    next
      case neq: False
      with ih show ?thesis
        unfolding run by simp
    qed
  qed
qed

lemma resume_results_synthesised:
  assumes "distinct (map call_id tcs)" and "tc \<in> set tcs"
    and "\<not> (\<exists>r \<in> set allResults. result_call_id r = call_id tc)"
  shows "\<lparr>result_call_id = call_id tc,
          result = (if tool tc = ''navigate''
                    then navigate_result (case h of Some x \<Rightarrow> x | None \<Rightarrow> []) ctx
                    else skipped_result)\<rparr>
         \<in> set (resume_results h ctx tcs allResults)"
  using assms
proof (induction tcs arbitrary: allResults)
  case Nil
  then show ?case by simp
next
  case (Cons t tcs)
  have kept: "r \<in> set rs \<Longrightarrow> r \<in> set (resume_results h ctx tcs rs)" for r rs
    using resume_results_prefix [of rs h ctx tcs] by (metis in_set_takeD)
  show ?case
  proof (cases "t = tc")
    case True
    with Cons.prems(3) kept show ?thesis by simp
  next
    case False
    with Cons.prems have tc: "tc \<in> set tcs" and ids: "call_id t \<noteq> call_id tc"
        and dist: "distinct (map call_id tcs)"
      by auto
    from Cons.prems(3) ids
    have fresh: "\<not> (\<exists>r \<in> set (allResults @ [\<lparr>result_call_id = call_id t, result = x\<rparr>]).
                      result_call_id r = call_id tc)" for x
      by simp
    show ?thesis
      using Cons.IH [OF dist tc Cons.prems(3)] Cons.IH [OF dist tc fresh]
      by simp
  qed
qed

lemma resume_results_origin:
  "r \<in> set (resume_results h ctx tcs allResults)
   \<Longrightarrow> r \<in> set allResults \<or> (\<exists>tc \<in> set tcs. call_id tc = result_call_id r)"
proof (induction tcs arbitrary: allResults)
  case Nil
  then show ?case by simp
next
  case (Cons t tcs)
  show ?case
  proof (cases "\<exists>c \<in> set allResults. result_call_id c = call_id t")
    case True
    with Cons.prems have "r \<in> set (resume_results h ctx tcs allResults)" by simp
    from Cons.IH [OF this] show ?thesis by auto
  next
    case False
    with Cons.prems obtain x
      where "r \<in> set (resume_results h ctx tcs
                        (allResults @ [\<lparr>result_call_id = call_id t, result = x\<rparr>]))"
      by (cases "tool t = ''navigate''") simp_all
    from Cons.IH [OF this] show ?thesis by auto
  qed
qed

lemma resume_results_length:
  "distinct (map call_id tcs) \<Longrightarrow>
   length (resume_results h ctx tcs allResults)
     = length allResults
       + length (filter (\<lambda>tc. \<not> (\<exists>r \<in> set allResults. result_call_id r = call_id tc)) tcs)"
proof (induction tcs arbitrary: allResults)
  case Nil
  show ?case by simp
next
  case (Cons t tcs)
  then have dist: "distinct (map call_id tcs)" and new: "call_id t \<notin> call_id ` set tcs"
    by simp_all
  have same: "filter (\<lambda>tc. \<not> (\<exists>r \<in> set (allResults @ [\<lparr>result_call_id = call_id t, result = x\<rparr>]).
                               result_call_id r = call_id tc)) tcs
              = filter (\<lambda>tc. \<not> (\<exists>r \<in> set allResults. result_call_id r = call_id tc)) tcs" for x
    using new by (intro filter_cong) auto
  show ?case using Cons.IH [OF dist] same by simp
qed

text \<open>
  C6, as the source has it, for call ids that are pairwise distinct among the pending
  calls and among the completed results. The merged list starts with the completed
  results, unchanged; it holds exactly one result for every pending call; for a pending
  call with a completed result that result is a completed one; a pending call without
  one gets the navigation result (which contains the page URL and the page context) when
  its tool is \<^verbatim>\<open>navigate\<close> and the placeholder otherwise; every result is a completed
  one or answers a pending call; and one result is synthesised per pending call without
  a completed result.
\<close>

theorem resume_results_one_per_call:
  assumes "distinct (map call_id (pendingToolCalls st))"
    and "distinct (map result_call_id (completedResults st))"
  shows "take (length (completedResults st)) (resume_allResults h ctx st) = completedResults st
    \<and> (\<forall>tc \<in> set (pendingToolCalls st).
          length (filter (\<lambda>r. result_call_id r = call_id tc) (resume_allResults h ctx st)) = 1)
    \<and> (\<forall>tc \<in> set (pendingToolCalls st).
          (\<exists>c \<in> set (completedResults st). result_call_id c = call_id tc) \<longrightarrow>
          (\<forall>r \<in> set (resume_allResults h ctx st).
             result_call_id r = call_id tc \<longrightarrow> r \<in> set (completedResults st)))
    \<and> (\<forall>tc \<in> set (pendingToolCalls st).
          \<not> (\<exists>c \<in> set (completedResults st). result_call_id c = call_id tc) \<longrightarrow>
          \<lparr>result_call_id = call_id tc,
           result = (if tool tc = ''navigate''
                     then navigate_result (case h of Some x \<Rightarrow> x | None \<Rightarrow> []) ctx
                     else skipped_result)\<rparr>
          \<in> set (resume_allResults h ctx st))
    \<and> (\<exists>pre mid. navigate_result (case h of Some x \<Rightarrow> x | None \<Rightarrow> []) ctx
                    = pre @ (case h of Some x \<Rightarrow> x | None \<Rightarrow> []) @ mid @ ctx)
    \<and> (\<forall>r \<in> set (resume_allResults h ctx st).
          r \<in> set (completedResults st)
          \<or> (\<exists>tc \<in> set (pendingToolCalls st). call_id tc = result_call_id r))
    \<and> length (resume_allResults h ctx st)
        = length (completedResults st)
          + length (filter (\<lambda>tc. \<not> (\<exists>c \<in> set (completedResults st).
                                       result_call_id c = call_id tc))
                      (pendingToolCalls st))"
proof -
  let ?done = "completedResults st"
  let ?merged = "resume_allResults h ctx st"
  have kept: "take (length ?done) ?merged = ?done"
    by (simp add: resume_allResults_def resume_results_prefix)
  have count_done: "length (filter (\<lambda>r. result_call_id r = i) ?done) = 1"
    if "\<exists>c \<in> set ?done. result_call_id c = i" for i
    using filter_key_distinct [OF assms(2) that] .
  have one: "\<forall>tc \<in> set (pendingToolCalls st).
          length (filter (\<lambda>r. result_call_id r = call_id tc) ?merged) = 1"
    using count_done
    by (auto simp add: resume_allResults_def resume_results_count)
  have from_done: "\<forall>tc \<in> set (pendingToolCalls st).
          (\<exists>c \<in> set ?done. result_call_id c = call_id tc) \<longrightarrow>
          (\<forall>r \<in> set ?merged. result_call_id r = call_id tc \<longrightarrow> r \<in> set ?done)"
  proof (intro ballI impI)
    fix tc r
    assume tc: "tc \<in> set (pendingToolCalls st)"
      and c: "\<exists>c \<in> set ?done. result_call_id c = call_id tc"
      and r: "r \<in> set ?merged" "result_call_id r = call_id tc"
    let ?f = "\<lambda>r. result_call_id r = call_id tc"
    have "filter ?f ?merged = filter ?f (take (length ?done) ?merged @ drop (length ?done) ?merged)"
      by simp
    also have "\<dots> = filter ?f ?done @ filter ?f (drop (length ?done) ?merged)"
      by (simp only: kept filter_append)
    finally have parts: "filter ?f ?merged = filter ?f ?done @ filter ?f (drop (length ?done) ?merged)" .
    from one tc have "length (filter ?f ?merged) = 1" by blast
    with parts count_done [OF c] have "filter ?f (drop (length ?done) ?merged) = []"
      by simp
    with parts have "filter ?f ?merged = filter ?f ?done" by simp
    moreover from r have "r \<in> set (filter ?f ?merged)" by simp
    ultimately show "r \<in> set ?done" by simp
  qed
  have synthesised: "\<forall>tc \<in> set (pendingToolCalls st).
          \<not> (\<exists>c \<in> set ?done. result_call_id c = call_id tc) \<longrightarrow>
          \<lparr>result_call_id = call_id tc,
           result = (if tool tc = ''navigate''
                     then navigate_result (case h of Some x \<Rightarrow> x | None \<Rightarrow> []) ctx
                     else skipped_result)\<rparr>
          \<in> set ?merged"
    using resume_results_synthesised [OF assms(1)] by (simp add: resume_allResults_def)
  have embeds: "\<exists>pre mid. navigate_result (case h of Some x \<Rightarrow> x | None \<Rightarrow> []) ctx
                    = pre @ (case h of Some x \<Rightarrow> x | None \<Rightarrow> []) @ mid @ ctx"
    unfolding navigate_result_def by (metis append.assoc)
  have origin: "\<forall>r \<in> set ?merged.
          r \<in> set ?done \<or> (\<exists>tc \<in> set (pendingToolCalls st). call_id tc = result_call_id r)"
    using resume_results_origin [of _ h ctx "pendingToolCalls st" ?done]
    by (simp add: resume_allResults_def)
  have len: "length ?merged
        = length ?done
          + length (filter (\<lambda>tc. \<not> (\<exists>c \<in> set ?done. result_call_id c = call_id tc))
                      (pendingToolCalls st))"
    using resume_results_length [OF assms(1)] by (simp add: resume_allResults_def)
  from kept one from_done synthesised embeds origin len show ?thesis by blast
qed

text \<open>
  Three pending calls, the first with a completed result: its result is kept, the
  navigation gets the result with the URL and the context, the third the placeholder.
\<close>

theorem resume_results_one_per_call_witness:
  "take 1 (resume_allResults (Some ''https://x.y/about'') ''ctx'' example_resume)
     = [\<lparr>result_call_id = ''c1'', result = ''clicked''\<rparr>]
   \<and> length (filter (\<lambda>r. result_call_id r = ''c1'')
               (resume_allResults (Some ''https://x.y/about'') ''ctx'' example_resume)) = 1
   \<and> length (filter (\<lambda>r. result_call_id r = ''c2'')
               (resume_allResults (Some ''https://x.y/about'') ''ctx'' example_resume)) = 1
   \<and> \<lparr>result_call_id = ''c2'', result = navigate_result ''https://x.y/about'' ''ctx''\<rparr>
       \<in> set (resume_allResults (Some ''https://x.y/about'') ''ctx'' example_resume)
   \<and> \<lparr>result_call_id = ''c3'', result = skipped_result\<rparr>
       \<in> set (resume_allResults (Some ''https://x.y/about'') ''ctx'' example_resume)
   \<and> length (resume_allResults (Some ''https://x.y/about'') ''ctx'' example_resume) = 3"
proof -
  have d1: "distinct (map call_id (pendingToolCalls example_resume))"
    by (simp add: example_resume_def)
  have d2: "distinct (map result_call_id (completedResults example_resume))"
    by (simp add: example_resume_def)
  from resume_results_one_per_call [OF d1 d2, of "Some ''https://x.y/about''" "''ctx''"]
  show ?thesis
    by (simp add: example_resume_def)
qed

text \<open>
  The claim as written fails where call ids repeat. With two completed results for the
  call \<open>c1\<close> the merged list holds two results for that pending call; with two pending
  calls named \<open>c1\<close>, the second one a navigation, the merged list is the placeholder of
  the first alone, and the navigation gets no navigation result.
\<close>

theorem resume_results_repeated_id_counterexample:
  "length (filter (\<lambda>r. result_call_id r = ''c1'')
             (resume_allResults None ''ctx'' resume_repeated_result)) = 2
   \<and> resume_allResults None ''ctx'' resume_repeated_call
       = [\<lparr>result_call_id = ''c1'', result = skipped_result\<rparr>]"
  by (simp add: resume_allResults_def resume_repeated_result_def resume_repeated_call_def
      example_resume_def)

subsection \<open>Reading the pending resume state\<close>

text \<open>
  What \<^verbatim>\<open>getPendingAgentResume\<close> returns, case by case. Without a storage, without an entry, or with the empty
  string stored, the result is \<^verbatim>\<open>null\<close> and the storage is left as it is. A non-empty
  string that does not parse, or that parses to \<^verbatim>\<open>null\<close>, is removed and the result is
  \<^verbatim>\<open>null\<close>. A parsed value whose \<^verbatim>\<open>savedAt\<close> is a number is removed, with result
  \<^verbatim>\<open>null\<close>, when it is more than 60000 ms old, and returned, the storage unchanged,
  when it is at most 60000 ms old. A parsed value whose \<^verbatim>\<open>savedAt\<close> is no number
  (\<^verbatim>\<open>ToNumber\<close> gives \<^verbatim>\<open>NaN\<close>) is returned without any check of its age. So whatever is
  returned was stored, parsed, and is not older than 60000 ms if it has a numeric
  \<^verbatim>\<open>savedAt\<close>.
\<close>

lemma RESUME_TTL_MS_one_minute: "RESUME_TTL_MS = 60 * 1000"
  by (simp add: RESUME_TTL_MS_def)

lemma getPendingAgentResume_cases:
  "getPendingAgentResume jp sn now None = (Null, None)
   \<and> (m RESUME_STORAGE_KEY = None \<longrightarrow> getPendingAgentResume jp sn now (Some m) = (Null, Some m))
   \<and> (m RESUME_STORAGE_KEY = Some [] \<longrightarrow> getPendingAgentResume jp sn now (Some m) = (Null, Some m))
   \<and> (m RESUME_STORAGE_KEY = Some raw \<and> raw \<noteq> [] \<and> (jp raw = None \<or> jp raw = Some Null) \<longrightarrow>
        getPendingAgentResume jp sn now (Some m) = (Null, Some (m(RESUME_STORAGE_KEY := None))))
   \<and> (m RESUME_STORAGE_KEY = Some raw \<and> raw \<noteq> [] \<and> jp raw = Some parsed \<and> parsed \<noteq> Null
        \<and> js_get parsed ''savedAt'' = Number t \<and> now - t > 60000 \<longrightarrow>
        getPendingAgentResume jp sn now (Some m) = (Null, Some (m(RESUME_STORAGE_KEY := None))))
   \<and> (m RESUME_STORAGE_KEY = Some raw \<and> raw \<noteq> [] \<and> jp raw = Some parsed \<and> parsed \<noteq> Null
        \<and> js_get parsed ''savedAt'' = Number t \<and> now - t \<le> 60000 \<longrightarrow>
        getPendingAgentResume jp sn now (Some m) = (parsed, Some m))
   \<and> (m RESUME_STORAGE_KEY = Some raw \<and> raw \<noteq> [] \<and> jp raw = Some parsed \<and> parsed \<noteq> Null
        \<and> js_to_number sn (js_get parsed ''savedAt'') = None \<longrightarrow>
        getPendingAgentResume jp sn now (Some m) = (parsed, Some m))
   \<and> (fst (getPendingAgentResume jp sn now ls) \<noteq> Null \<longrightarrow>
        snd (getPendingAgentResume jp sn now ls) = ls
        \<and> (\<exists>raw. stored_resume ls = Some raw \<and> raw \<noteq> []
              \<and> jp raw = Some (fst (getPendingAgentResume jp sn now ls)))
        \<and> (\<forall>t. js_get (fst (getPendingAgentResume jp sn now ls)) ''savedAt'' = Number t
               \<longrightarrow> now - t \<le> 60000))"
proof -
  have returned: "snd (getPendingAgentResume jp sn now ls) = ls
        \<and> (\<exists>raw. stored_resume ls = Some raw \<and> raw \<noteq> []
              \<and> jp raw = Some (fst (getPendingAgentResume jp sn now ls)))
        \<and> (\<forall>t. js_get (fst (getPendingAgentResume jp sn now ls)) ''savedAt'' = Number t
               \<longrightarrow> now - t \<le> 60000)"
    if "fst (getPendingAgentResume jp sn now ls) \<noteq> Null"
    using that
    by (auto simp add: getPendingAgentResume_def stored_resume_def RESUME_TTL_MS_def
        split: option.splits if_splits)
  show ?thesis
    using returned
    by (auto simp add: getPendingAgentResume_def clearPendingAgentResume_def RESUME_TTL_MS_def)
qed

text \<open>
  A record saved at time 1000: read at 61000, it is 60000 ms old and returned, and the
  entry stays; read at 61001, the result is \<^verbatim>\<open>null\<close> and the entry is gone. A stored
  string that does not parse is removed as well.
\<close>

lemma getPendingAgentResume_cases_example:
  "fst (getPendingAgentResume example_json (\<lambda>v. None) 61000 (storage_with ''{\"savedAt\":1000}''))
     = Object [(''savedAt'', Number 1000)]
   \<and> stored_resume (snd (getPendingAgentResume example_json (\<lambda>v. None) 61000
                            (storage_with ''{\"savedAt\":1000}'')))
     = Some ''{\"savedAt\":1000}''
   \<and> fst (getPendingAgentResume example_json (\<lambda>v. None) 61001 (storage_with ''{\"savedAt\":1000}''))
     = Null
   \<and> stored_resume (snd (getPendingAgentResume example_json (\<lambda>v. None) 61001
                            (storage_with ''{\"savedAt\":1000}'')))
     = None
   \<and> fst (getPendingAgentResume example_json (\<lambda>v. None) 61000 (storage_with ''{invalid'')) = Null
   \<and> stored_resume (snd (getPendingAgentResume example_json (\<lambda>v. None) 61000
                            (storage_with ''{invalid'')))
     = None"
proof -
  let ?m = "\<lambda>raw k. if k = RESUME_STORAGE_KEY then Some raw else None"
  let ?rec = "''{\"savedAt\":1000}''"
  have parsed: "example_json ?rec = Some (Object [(''savedAt'', Number 1000)])"
    by code_simp
  have unparsed: "example_json ''{invalid'' = None"
    by code_simp
  from getPendingAgentResume_cases
         [of example_json "\<lambda>v. None" 61000 "?m ?rec" ?rec "Object [(''savedAt'', Number 1000)]" 1000]
       getPendingAgentResume_cases
         [of example_json "\<lambda>v. None" 61001 "?m ?rec" ?rec "Object [(''savedAt'', Number 1000)]" 1000]
       getPendingAgentResume_cases
         [of example_json "\<lambda>v. None" 61000 "?m ''{invalid''" "''{invalid''"]
       parsed unparsed
  show ?thesis
    by (simp add: storage_with_def stored_resume_def)
qed

text \<open>
  C10 at a stored record without \<^verbatim>\<open>savedAt\<close>. The claim lets a stored record be
  returned only if its \<^verbatim>\<open>savedAt\<close> is at most 60000 ms old, so that no corrupt checkpoint
  is consumed. The stored string \<^verbatim>\<open>{}\<close> parses; \<^verbatim>\<open>Date.now() - undefined\<close> is \<^verbatim>\<open>NaN\<close>,
  the comparison with the time to live is false, and the empty object is returned as the
  resume state, at any time, and stays in the storage.
\<close>

theorem pending_resume_without_savedAt_returned:
  "fst (getPendingAgentResume example_json (\<lambda>v. None) 999999999 (storage_with ''{}'')) = Object []
   \<and> js_get (Object []) ''savedAt'' = Undefined
   \<and> stored_resume (snd (getPendingAgentResume example_json (\<lambda>v. None) 999999999
                            (storage_with ''{}'')))
     = Some ''{}''"
  by (simp add: getPendingAgentResume_def storage_with_def stored_resume_def example_json_def)

subsection \<open>Settling the promise of an agent stream\<close>

lemma catch_first_snoc:
  "catch_first cs \<Longrightarrow> \<not> is_catch_report c \<Longrightarrow> catch_first (cs @ [c])"
  by (induction cs) auto

lemma catch_first_snoc_catch:
  "filter is_catch_report cs = [] \<Longrightarrow> filter is_handler_report cs = []
   \<Longrightarrow> catch_first (cs @ [OnError CatchBlock e])"
  by (induction cs) auto


lemma agent_socket_close_fields [simp]:
  "phase (agent_socket_close s) = phase s"
  "settle_calls (agent_socket_close s) = settle_calls s"
  "done_promise (agent_socket_close s) = done_promise s"
  "resolved (agent_socket_close s) = resolved s"
  "errorEmitted (agent_socket_close s) = errorEmitted s"
  "calls (agent_socket_close s) = calls s"
  "isStopped (agent_socket_close s) = isStopped s"
  "(agent_socket (agent_socket_close s) = None) = (agent_socket s = None)"
  by (simp_all add: agent_socket_close_def split: option.splits ready_state.splits)

lemma inv_call:
  "agent_inv s \<Longrightarrow> \<not> is_catch_report c \<Longrightarrow> (is_handler_report c \<Longrightarrow> errorEmitted s)
   \<Longrightarrow> agent_inv (call c s)"
  by (auto simp add: agent_inv_def call_def catch_first_snoc)

lemma call_fields [simp]:
  "phase (call c s) = phase s" "resolved (call c s) = resolved s"
  "agent_socket (call c s) = agent_socket s" "isStopped (call c s) = isStopped s"
  "errorEmitted (call c s) = errorEmitted s"
  by (simp_all add: call_def)

lemma inv_return_resolve:
  "agent_inv s \<Longrightarrow> phase s \<noteq> Finished \<Longrightarrow> agent_socket s = None \<or> resolved s
   \<Longrightarrow> agent_inv (return_resolve s)"
  by (auto simp add: agent_inv_def return_resolve_def finally_block_def done_resolve_def
      settle_def Let_def)

lemma inv_finish_turn:
  "agent_inv s \<Longrightarrow> phase s \<noteq> Finished \<Longrightarrow> agent_socket s = None \<or> resolved s
   \<Longrightarrow> agent_inv (finish_turn s)"
  unfolding finish_turn_def
  by (auto intro!: inv_return_resolve inv_call)

lemma inv_catch_block:
  "agent_inv s \<Longrightarrow> phase s \<noteq> Finished \<Longrightarrow> agent_socket s = None \<or> resolved s
   \<Longrightarrow> agent_inv (catch_block describe err s)"
  by (auto simp add: agent_inv_def catch_block_def finally_block_def done_reject_def call_def
      settle_def Let_def catch_first_snoc_catch)

lemma inv_after_agent:
  "agent_inv s \<Longrightarrow> phase s = AwaitAgent \<Longrightarrow> agent_socket s = None \<or> resolved s
   \<Longrightarrow> agent_inv (after_agent reply s)"
proof -
  assume inv: "agent_inv s" and ph: "phase s = AwaitAgent" and r: "agent_socket s = None \<or> resolved s"
  let ?s1 = "s\<lparr>activeSocket := False\<rparr>"
  from inv have inv1: "agent_inv ?s1" by (simp add: agent_inv_def)
  show ?thesis
  proof (cases "isStopped s \<or> \<not> truthy reply")
    case True
    then have "after_agent reply s = finish_turn ?s1" by (simp add: after_agent_def Let_def)
    with inv_finish_turn [OF inv1] ph r show ?thesis by simp
  next
    case False
    then have "after_agent reply s = (call (OnAudioStateChange ''rendering'') ?s1)\<lparr>phase := AwaitTtsWs\<rparr>"
      by (simp add: after_agent_def Let_def)
    moreover from inv1 ph r have "agent_inv ((call (OnAudioStateChange ''rendering'') ?s1)\<lparr>phase := AwaitTtsWs\<rparr>)"
      by (auto simp add: agent_inv_def call_def catch_first_snoc)
    ultimately show ?thesis by simp
  qed
qed

lemma inv_after_tts:
  "agent_inv s \<Longrightarrow> phase s = AwaitTtsWs \<or> phase s = AwaitSse
   \<Longrightarrow> agent_inv (after_tts ttsChunks s)"
proof -
  assume inv: "agent_inv s" and ph: "phase s = AwaitTtsWs \<or> phase s = AwaitSse"
  from inv ph have r: "agent_socket s = None \<or> resolved s" by (auto simp add: agent_inv_def)
  show ?thesis
  proof (cases "\<not> isStopped s \<and> length ttsChunks > 0")
    case True
    with inv ph r show ?thesis by (auto simp add: after_tts_def agent_inv_def)
  next
    case False
    then have "after_tts ttsChunks s = finish_turn (call (OnAudioStateChange ''done'') s)"
      by (auto simp add: after_tts_def)
    moreover have "agent_inv (finish_turn (call (OnAudioStateChange ''done'') s))"
      using inv ph r by (intro inv_finish_turn inv_call) auto
    ultimately show ?thesis by simp
  qed
qed

lemma inv_finish:
  "agent_inv s \<Longrightarrow> agent_socket s \<noteq> None \<Longrightarrow> agent_inv (finish reply s)"
proof (cases "resolved s")
  case True
  assume "agent_inv s"
  with True show ?thesis by (simp add: finish_def)
next
  case False
  assume inv: "agent_inv s" and sock: "agent_socket s \<noteq> None"
  with False have ph: "phase s = AwaitAgent" by (auto simp add: agent_inv_def)
  from inv ph have "agent_inv (s\<lparr>resolved := True\<rparr>)" by (simp add: agent_inv_def)
  from inv_after_agent [OF this] ph False show ?thesis by (simp add: finish_def)
qed

lemma inv_fail:
  "agent_inv s \<Longrightarrow> agent_socket s \<noteq> None \<Longrightarrow> agent_inv (fail describe err s)"
proof (cases "resolved s")
  case True
  assume "agent_inv s"
  with True show ?thesis by (simp add: fail_def)
next
  case False
  assume inv: "agent_inv s" and sock: "agent_socket s \<noteq> None"
  with False have ph: "phase s = AwaitAgent" by (auto simp add: agent_inv_def)
  from inv ph have "agent_inv (s\<lparr>resolved := True\<rparr>)" by (simp add: agent_inv_def)
  from inv_catch_block [OF this] ph False show ?thesis by (simp add: fail_def)
qed

lemma inv_emitted: "agent_inv s \<Longrightarrow> agent_inv (s\<lparr>errorEmitted := True\<rparr>)"
  by (simp add: agent_inv_def)

lemma inv_report:
  "agent_inv s \<Longrightarrow> agent_socket s \<noteq> None
   \<Longrightarrow> agent_inv (fail describe err (call (OnError SocketHandler m) (s\<lparr>errorEmitted := True\<rparr>)))"
  by (intro inv_fail inv_call inv_emitted) simp_all

lemma inv_onmessage:
  assumes "agent_inv s" and "agent_socket s \<noteq> None"
  shows "agent_inv (agent_onmessage jp describe raw s)"
proof (cases "jp raw")
  case None
  with assms show ?thesis by (simp add: agent_onmessage_def)
next
  case (Some data)
  have session: "agent_inv (call (OnSessionId sid) (s\<lparr>effectiveSessionId := sid\<rparr>))" for sid
    using assms(1) by (intro inv_call) (simp_all add: agent_inv_def)
  have iteration: "agent_inv (call (OnIteration a b) s)" for a b
    using assms(1) by (intro inv_call) simp_all
  have delta: "agent_inv (call (OnAssistantDelta d) (s\<lparr>accumulatedDelta := accumulatedDelta s @ d\<rparr>))" for d
    using assms(1) by (intro inv_call) (simp_all add: agent_inv_def)
  have tools: "agent_inv (call (OnToolCalls cs)
       ((if trim (accumulatedDelta s) \<noteq> []
         then call (OnIntermediateReply (trim (accumulatedDelta s))) s else s)\<lparr>accumulatedDelta := []\<rparr>))" for cs
    using assms(1) by (intro inv_call) (auto simp add: agent_inv_def call_def catch_first_snoc)
  have finished: "agent_inv (finish reply
       (case js_get data ''session_id'' of
          String sid \<Rightarrow> call (OnSessionId sid) (call (OnAssistantDone reply) (s\<lparr>finalReply := reply\<rparr>))
        | _ \<Rightarrow> call (OnAssistantDone reply) (s\<lparr>finalReply := reply\<rparr>)))" for reply
  proof -
    have base: "agent_inv (call (OnAssistantDone reply) (s\<lparr>finalReply := reply\<rparr>))"
      using assms(1) by (intro inv_call) (simp_all add: agent_inv_def)
    have "agent_inv (call (OnSessionId sid) (call (OnAssistantDone reply) (s\<lparr>finalReply := reply\<rparr>)))" for sid
      by (rule inv_call [OF base]) simp_all
    with base assms(2) show ?thesis
      by (intro inv_finish) (auto split: jsval.splits)
  qed
  from Some assms session iteration delta tools finished inv_report [OF assms] show ?thesis
    by (simp add: agent_onmessage_def Let_def)
qed

lemma inv_stop: "agent_inv s \<Longrightarrow> agent_inv (stop s)"
  by (auto simp add: agent_inv_def stop_def Let_def)

lemma inv_open_agent_socket:
  "agent_inv s \<Longrightarrow> phase s = AwaitStt \<Longrightarrow> agent_socket s = None \<Longrightarrow> agent_inv (open_agent_socket s)"
proof (cases "isStopped s")
  case True
  assume inv: "agent_inv s" and ph: "phase s = AwaitStt" and sock: "agent_socket s = None"
  then have "agent_inv (s\<lparr>phase := AwaitAgent\<rparr>)" by (auto simp add: agent_inv_def)
  from inv_after_agent [OF this] sock True show ?thesis by (simp add: open_agent_socket_def)
next
  case False
  assume "agent_inv s" and "phase s = AwaitStt" and "agent_socket s = None"
  with False show ?thesis by (auto simp add: agent_inv_def open_agent_socket_def)
qed

lemma inv_step:
  assumes inv: "agent_inv s"
  shows "agent_inv (agent_step jp describe v ev s)"
proof (cases ev)
  case (SttResult utext sid)
  show ?thesis
  proof (cases "phase s = AwaitStt")
    case True
    let ?s1 = "call (OnTranscription sid utext) (s\<lparr>effectiveSessionId := sid, userText := utext\<rparr>)"
    from inv True have sock: "agent_socket s = None" by (auto simp add: agent_inv_def)
    from inv have inv1: "agent_inv ?s1" by (intro inv_call) (simp_all add: agent_inv_def)
    from inv_return_resolve [OF inv1] inv_open_agent_socket [OF inv1] True sock SttResult
    show ?thesis by (simp add: agent_step_def Let_def)
  next
    case False
    with inv SttResult show ?thesis by (simp add: agent_step_def)
  qed
next
  case (SttFailure err)
  from inv have "phase s = AwaitStt \<Longrightarrow> agent_socket s = None" by (auto simp add: agent_inv_def)
  with inv_catch_block [OF inv, of describe err] inv SttFailure show ?thesis
    by (simp add: agent_step_def)
next
  case AgentOpen
  from inv have "agent_socket s = Some CONNECTING
      \<Longrightarrow> agent_inv (agent_onopen v (s\<lparr>agent_socket := Some OPEN\<rparr>))"
    by (auto simp add: agent_inv_def agent_onopen_def)
  with inv AgentOpen show ?thesis by (simp add: agent_step_def)
next
  case (AgentMessage raw)
  from inv_onmessage [OF inv, of jp describe raw] inv AgentMessage show ?thesis
    by (simp add: agent_step_def)
next
  case AgentError
  from inv_report [OF inv, of describe] inv AgentError show ?thesis
    by (simp add: agent_step_def agent_onerror_def)
next
  case AgentClose
  have "agent_inv (agent_onclose (s\<lparr>agent_socket := Some CLOSED\<rparr>))" if "agent_socket s \<noteq> None"
  proof -
    from inv that have "agent_inv (s\<lparr>agent_socket := Some CLOSED\<rparr>)"
      by (auto simp add: agent_inv_def)
    from inv_finish [OF this] show ?thesis by (simp add: agent_onclose_def)
  qed
  with inv AgentClose show ?thesis by (simp add: agent_step_def)
next
  case (TtsWsResult ttsChunks)
  from inv_after_tts [OF inv, of ttsChunks] inv TtsWsResult show ?thesis
    by (simp add: agent_step_def)
next
  case (TtsWsFailure wsError)
  show ?thesis
  proof (cases "phase s = AwaitTtsWs")
    case True
    with inv have r: "agent_socket s = None \<or> resolved s" by (auto simp add: agent_inv_def)
    from inv True have "agent_inv (s\<lparr>phase := AwaitSse\<rparr>)" by (auto simp add: agent_inv_def)
    with inv_return_resolve [OF inv] True r TtsWsFailure show ?thesis
      by (simp add: agent_step_def)
  next
    case False
    with inv TtsWsFailure show ?thesis by (simp add: agent_step_def)
  qed
next
  case (SseResult ttsChunks)
  from inv_after_tts [OF inv, of ttsChunks] inv SseResult show ?thesis
    by (simp add: agent_step_def)
next
  case (SseFailure err)
  from inv have "phase s = AwaitSse \<Longrightarrow> agent_socket s = None \<or> resolved s"
    by (auto simp add: agent_inv_def)
  with inv_catch_block [OF inv, of describe err] inv SseFailure show ?thesis
    by (simp add: agent_step_def)
next
  case PlaybackEnded
  from inv have "phase s = AwaitPlayback \<Longrightarrow> agent_socket s = None \<or> resolved s"
    by (auto simp add: agent_inv_def)
  with inv_finish_turn [OF inv] inv PlaybackEnded show ?thesis
    by (simp add: agent_step_def)
next
  case (PlaybackFailure err)
  from inv have "phase s = AwaitPlayback \<Longrightarrow> agent_socket s = None \<or> resolved s"
    by (auto simp add: agent_inv_def)
  with inv_catch_block [OF inv, of describe err] inv PlaybackFailure show ?thesis
    by (simp add: agent_step_def)
next
  case Stop
  with inv_stop [OF inv] show ?thesis by (simp add: agent_step_def)
qed

lemma inv_run: "agent_inv s \<Longrightarrow> agent_inv (agent_run jp describe v evs s)"
  by (induction evs arbitrary: s) (simp_all add: inv_step)




lemma phase_finished [simp]:
  "phase (finally_block s) = Finished"
  "phase (return_resolve s) = Finished"
  "phase (finish_turn s) = Finished"
  "phase (catch_block describe err s) = Finished"
  by (simp_all add: finally_block_def return_resolve_def finish_turn_def catch_block_def Let_def)





lemma finish_resolved [simp]: "resolved s \<Longrightarrow> finish reply s = s"
  by (simp add: finish_def)

lemma fail_resolved [simp]: "resolved s \<Longrightarrow> fail describe err s = s"
  by (simp add: fail_def)

lemma call_more_fields [simp]:
  "calls (call c s) = calls s @ [c]" "done_promise (call c s) = done_promise s"
  "settle_calls (call c s) = settle_calls s"
  by (simp_all add: call_def)



lemma stop_fields [simp]:
  "phase (stop s) = phase s" "resolved (stop s) = resolved s"
  "(agent_socket (stop s) = None) = (agent_socket s = None)"
  by (simp_all add: stop_def Let_def)



















end
